theory Spec2Isabelle
  imports Main
begin

section \<open>The Gobstones bytecode compiler\<close>

text \<open>
  A shallow embedding of the class \<^verbatim>\<open>Compiler\<close> (the syntax-directed translator
  from abstract syntax trees to code for the stack machine), of the queries it
  makes to \<^verbatim>\<open>SymbolTable\<close> (symtable.js) and of the type trees of value.js
  that the \<^verbatim>\<open>TypeCheck\<close> instruction carries.

  The modules ast.js, instruction.js, runtime.js and i18n.js are imported by the
  compiler but are not among the sources.  Their data is modelled from the way
  the compiler reads and builds it: a node of the tree carries its two
  positions and the fields the compiler reads, an instruction carries the
  arguments of its constructor call.  The message catalogue \<^verbatim>\<open>i18n\<close> and the
  catalogue of primitives \<^verbatim>\<open>RuntimePrimitives\<close> are parameters.
\<close>

subsection \<open>Types (value.js)\<close>

text \<open>
  A type is a tree.  The cases of a structure type map constructor names to
  maps from field names to types; the compiler only ever builds the empty
  dictionary \<^verbatim>\<open>{}\<close>, so an association list is enough here.
\<close>

datatype Type =
    TypeAny
  | TypeInteger
  | TypeString
  | TypeTuple "Type list"
  | TypeList Type
  | TypeStructure string "(string \<times> (string \<times> Type) list) list"

subsection \<open>Instructions\<close>

text \<open>
  The argument of \<^verbatim>\<open>PushInteger\<close> is a JavaScript number where the compiler
  writes the literal itself (\<^verbatim>\<open>new IPushInteger(0)\<close>) and the text of the
  token where it comes from a numeric constant of the program
  (\<^verbatim>\<open>expression.number.value\<close>).
\<close>

datatype number = Number int | NumberText string

datatype instr =
    IPushInteger number
  | IPushString string
  | IPushVariable string
  | ISetVariable string
  | IUnsetVariable string
  | ILabel string
  | IJump string
  | IJumpIfFalse string
  | IJumpIfStructure string string
  | IJumpIfTuple nat string
  | ICall string nat
  | IReturn
  | IMakeTuple nat
  | IMakeList nat
  | IMakeStructure string string "string list"
  | IUpdateStructure string string "string list"
  | IReadTupleComponent nat
  | IReadStructureField string
  | IAdd
  | IDup
  | IPop
  | IPrimitiveCall string nat
  | ISaveState
  | IRestoreState
  | ITypeCheck Type

text \<open>An instruction of the code, with the two positions \<^verbatim>\<open>_produce\<close> sets.\<close>

datatype 'p instruction =
  Instruction (opcode: instr) (startPos: 'p) (endPos: 'p)

subsection \<open>Abstract syntax\<close>

text \<open>
  Every node starts with its \<^verbatim>\<open>startPos\<close> and \<^verbatim>\<open>endPos\<close>.  An identifier
  node is represented by its \<^verbatim>\<open>value\<close>.  The last constructor of each type
  stands for a node with any other tag, named by the key of the tag; it is what
  reaches the \<^verbatim>\<open>default\<close> branch of a dispatch.  The compiler reads no field of
  a range or of a structure update.
\<close>

datatype 'p expr =
    ExprVariable 'p 'p string
  | ExprConstantNumber 'p 'p string
  | ExprConstantString 'p 'p string
  | ExprList 'p 'p "'p expr list"
  | ExprRange 'p 'p
  | ExprTuple 'p 'p "'p expr list"
  | ExprStructure 'p 'p string "(string \<times> 'p expr) list"
  | ExprStructureUpdate 'p 'p
  | ExprFunctionCall 'p 'p string "'p expr list"
  | ExprOther 'p 'p string

datatype 'p pattern =
    PatternWildcard 'p 'p
  | PatternStructure 'p 'p string "string list"
  | PatternTuple 'p 'p "string list"
  | PatternTimeout 'p 'p
  | PatternOther 'p 'p string

datatype 'p stmt =
    StmtBlock 'p 'p "'p stmt list"
  | StmtReturn 'p 'p "'p expr"
  | StmtIf 'p 'p "'p expr" "'p stmt" "'p stmt option"
  | StmtRepeat 'p 'p "'p expr" "'p stmt"
  | StmtForeach 'p 'p string "'p expr" "'p stmt"
  | StmtWhile 'p 'p "'p expr" "'p stmt"
  | StmtSwitch 'p 'p "'p expr" "'p branch list"
  | StmtAssignVariable 'p 'p string "'p expr"
  | StmtAssignTuple 'p 'p "string list" "'p expr"
  | StmtProcedureCall 'p 'p string "'p expr list"
  | StmtOther 'p 'p string
and 'p branch =
    SwitchBranch (branchStartPos: 'p) (branchEndPos: 'p)
      (branchPattern: "'p pattern") (branchBody: "'p stmt")

datatype 'p defn =
    DefProgram 'p 'p "'p stmt"
  | DefInteractiveProgram 'p 'p
  | DefProcedure 'p 'p
  | DefFunction 'p 'p
  | DefType 'p 'p

datatype 'p main =
  Main (definitions: "'p defn list") (mainStartPos: 'p) (mainEndPos: 'p)

fun exprStartPos :: "'p expr \<Rightarrow> 'p" where
  "exprStartPos (ExprVariable sp ep v) = sp"
| "exprStartPos (ExprConstantNumber sp ep v) = sp"
| "exprStartPos (ExprConstantString sp ep v) = sp"
| "exprStartPos (ExprList sp ep es) = sp"
| "exprStartPos (ExprRange sp ep) = sp"
| "exprStartPos (ExprTuple sp ep es) = sp"
| "exprStartPos (ExprStructure sp ep c fs) = sp"
| "exprStartPos (ExprStructureUpdate sp ep) = sp"
| "exprStartPos (ExprFunctionCall sp ep f es) = sp"
| "exprStartPos (ExprOther sp ep t) = sp"

fun exprEndPos :: "'p expr \<Rightarrow> 'p" where
  "exprEndPos (ExprVariable sp ep v) = ep"
| "exprEndPos (ExprConstantNumber sp ep v) = ep"
| "exprEndPos (ExprConstantString sp ep v) = ep"
| "exprEndPos (ExprList sp ep es) = ep"
| "exprEndPos (ExprRange sp ep) = ep"
| "exprEndPos (ExprTuple sp ep es) = ep"
| "exprEndPos (ExprStructure sp ep c fs) = ep"
| "exprEndPos (ExprStructureUpdate sp ep) = ep"
| "exprEndPos (ExprFunctionCall sp ep f es) = ep"
| "exprEndPos (ExprOther sp ep t) = ep"

subsection \<open>Errors\<close>

text \<open>
  Whatever the compiler throws ends the compilation: \<^verbatim>\<open>compile\<close> catches
  nothing.  \<open>Error\<close> carries the message of a \<^verbatim>\<open>throw Error(...)\<close>;
  the other two are the exceptions the language itself raises, for a name that
  is not declared and for a call of, or a property read from, \<^verbatim>\<open>undefined\<close>.
\<close>

datatype error = Error string | ReferenceError string | TypeError string

definition thenE :: "error + 'a \<Rightarrow> ('a \<Rightarrow> error + 'b) \<Rightarrow> error + 'b" where
  "thenE r k = (case r of Inl e \<Rightarrow> Inl e | Inr x \<Rightarrow> k x)"

subsection \<open>The symbol table (symtable.js) and the primitives\<close>

text \<open>
  The two dictionaries of the symbol table that the compiler queries.  The
  class has no method \<^verbatim>\<open>isFunction\<close> or \<^verbatim>\<open>isField\<close>.
\<close>

record SymbolTable =
  constructorTypes :: "string \<rightharpoonup> string"
  constructorFieldNames :: "string \<rightharpoonup> string list"

definition constructorType :: "SymbolTable \<Rightarrow> string \<Rightarrow> error + string" where
  "constructorType symtable name =
     (case constructorTypes symtable name of
        Some typeName \<Rightarrow> Inr typeName
      | None \<Rightarrow> Inl (Error ''Undefined constructor.''))"

definition constructorFields :: "SymbolTable \<Rightarrow> string \<Rightarrow> error + string list" where
  "constructorFields symtable name =
     (case constructorFieldNames symtable name of
        Some fieldNames \<Rightarrow> Inr fieldNames
      | None \<Rightarrow> Inl (Error ''Undefined constructor.''))"

text \<open>The membership queries of \<^verbatim>\<open>RuntimePrimitives\<close> (runtime.js).\<close>

record RuntimePrimitives =
  isProcedure :: "string \<Rightarrow> bool"
  isFunction :: "string \<Rightarrow> bool"

subsection \<open>The compiler: state, code builder and fresh names\<close>

record 'p Compiler =
  symtable :: SymbolTable
  code :: "'p instruction list"
  nextLabel :: nat
  nextVariable :: nat
  primitives :: RuntimePrimitives

text \<open>The constructor; \<open>prims\<close> stands for \<^verbatim>\<open>new RuntimePrimitives()\<close>.\<close>

definition newCompiler :: "RuntimePrimitives \<Rightarrow> SymbolTable \<Rightarrow> 'p Compiler" where
  "newCompiler prims st =
     \<lparr> symtable = st, code = [], nextLabel = 0, nextVariable = 0, primitives = prims \<rparr>"

definition produce :: "'p \<Rightarrow> 'p \<Rightarrow> instr \<Rightarrow> 'p Compiler \<Rightarrow> 'p Compiler" where
  "produce sp ep instruction c = c\<lparr> code := code c @ [Instruction instruction sp ep] \<rparr>"

fun produceList :: "'p \<Rightarrow> 'p \<Rightarrow> instr list \<Rightarrow> 'p Compiler \<Rightarrow> 'p Compiler" where
  "produceList sp ep [] c = c"
| "produceList sp ep (instruction # instructions) c =
     produceList sp ep instructions (produce sp ep instruction c)"

text \<open>
  \<^verbatim>\<open>Number.prototype.toString\<close> on a counter: the decimal digits.  The counters
  are JavaScript numbers, exact up to \<open>2^53\<close>; a tree with that many loops
  does not fit in memory, so they are natural numbers here.
\<close>

definition digit :: "nat \<Rightarrow> char" where
  "digit d =
     (if d = 0 then CHR ''0'' else if d = 1 then CHR ''1'' else if d = 2 then CHR ''2''
      else if d = 3 then CHR ''3'' else if d = 4 then CHR ''4'' else if d = 5 then CHR ''5''
      else if d = 6 then CHR ''6'' else if d = 7 then CHR ''7'' else if d = 8 then CHR ''8''
      else CHR ''9'')"

fun toString :: "nat \<Rightarrow> string" where
  "toString n = (if n < 10 then [digit n] else toString (n div 10) @ [digit (n mod 10)])"

declare toString.simps [simp del]

definition freshLabel :: "'p Compiler \<Rightarrow> string \<times> 'p Compiler" where
  "freshLabel c = (''_l'' @ toString (nextLabel c), c\<lparr> nextLabel := nextLabel c + 1 \<rparr>)"

definition freshVariable :: "'p Compiler \<Rightarrow> string \<times> 'p Compiler" where
  "freshVariable c = (''_v'' @ toString (nextVariable c), c\<lparr> nextVariable := nextVariable c + 1 \<rparr>)"

subsection \<open>Expressions\<close>

text \<open>
  \<^verbatim>\<open>_compileExpression\<close> with the methods it dispatches to, one equation for
  each tag.  The loops over the elements, the arguments and the field bindings
  are \<open>compileExpressions\<close> and \<open>compileFieldBindings\<close>.  The cases of a
  range and of a structure update leave the \<^verbatim>\<open>switch\<close> by \<^verbatim>\<open>break\<close>: nothing
  is produced and the method returns.

  In a function call whose name is not a primitive function the next test is
  \<^verbatim>\<open>this._symtable.isFunction(functionName)\<close>, a call of a method the symbol
  table does not have.
\<close>

fun compileExpression :: "'p expr \<Rightarrow> 'p Compiler \<Rightarrow> error + 'p Compiler"
  and compileExpressions :: "'p expr list \<Rightarrow> 'p Compiler \<Rightarrow> error + 'p Compiler"
  and compileFieldBindings :: "(string \<times> 'p expr) list \<Rightarrow> 'p Compiler \<Rightarrow> error + 'p Compiler"
where
  "compileExpression (ExprVariable sp ep variableName) c =
     Inr (produce sp ep (IPushVariable variableName) c)"
| "compileExpression (ExprConstantNumber sp ep number) c =
     Inr (produce sp ep (IPushInteger (NumberText number)) c)"
| "compileExpression (ExprConstantString sp ep string) c =
     Inr (produce sp ep (IPushString string) c)"
| "compileExpression (ExprList sp ep elements) c =
     thenE (compileExpressions elements c) (\<lambda>c.
       Inr (produce sp ep (IMakeList (length elements)) c))"
| "compileExpression (ExprRange sp ep) c = Inr c"
| "compileExpression (ExprTuple sp ep elements) c =
     thenE (compileExpressions elements c) (\<lambda>c.
       Inr (produce sp ep (IMakeTuple (length elements)) c))"
| "compileExpression (ExprStructure sp ep constructorName fieldBindings) c =
     thenE (compileFieldBindings fieldBindings c) (\<lambda>c.
     thenE (constructorType (symtable c) constructorName) (\<lambda>typeName.
       Inr (produce sp ep
              (IMakeStructure typeName constructorName (map fst fieldBindings)) c)))"
| "compileExpression (ExprStructureUpdate sp ep) c = Inr c"
| "compileExpression (ExprFunctionCall sp ep functionName args) c =
     (if functionName = ''&&'' \<or> functionName = ''||'' then
        Inl (Error ''short-circuiting not implemented'')
      else
        thenE (compileExpressions args c) (\<lambda>c.
          if isFunction (primitives c) functionName then
            Inr (produce sp ep (IPrimitiveCall functionName (length args)) c)
          else
            Inl (TypeError ''this._symtable.isFunction is not a function'')))"
| "compileExpression (ExprOther sp ep tag) c =
     Inl (Error (''Compiler: Expression not implemented: '' @ tag))"
| "compileExpressions [] c = Inr c"
| "compileExpressions (element # elements) c =
     thenE (compileExpression element c) (\<lambda>c. compileExpressions elements c)"
| "compileFieldBindings [] c = Inr c"
| "compileFieldBindings (fieldBinding # fieldBindings) c =
     thenE (compileExpression (snd fieldBinding) c) (\<lambda>c.
       compileFieldBindings fieldBindings c)"

subsection \<open>Patterns\<close>

text \<open>
  The three phases of a pattern: check and branch, bind, unbind.  \<open>i18n\<close>
  is the look-up in the message catalogue.
\<close>

fun compilePatternCheck ::
  "(string \<Rightarrow> string) \<Rightarrow> 'p pattern \<Rightarrow> string \<Rightarrow> 'p Compiler \<Rightarrow> error + 'p Compiler"
where
  "compilePatternCheck i18n (PatternWildcard sp ep) targetLabel c =
     Inr (produce sp ep (IJump targetLabel) c)"
| "compilePatternCheck i18n (PatternStructure sp ep constructorName parameters) targetLabel c =
     thenE (constructorType (symtable c) constructorName) (\<lambda>typeName.
       let expectedType = TypeStructure typeName [];
           c = produce sp ep (ITypeCheck expectedType) c
       in Inr (produce sp ep (IJumpIfStructure constructorName targetLabel) c))"
| "compilePatternCheck i18n (PatternTuple sp ep parameters) targetLabel c =
     (let expectedType = TypeTuple (replicate (length parameters) TypeAny);
          c = produce sp ep (ITypeCheck expectedType) c
      in Inr (produce sp ep (IJumpIfTuple (length parameters) targetLabel) c))"
| "compilePatternCheck i18n (PatternTimeout sp ep) targetLabel c =
     Inr (produce sp ep (IJumpIfStructure (i18n ''CONS:TIMEOUT'') targetLabel) c)"
| "compilePatternCheck i18n (PatternOther sp ep tag) targetLabel c =
     Inl (Error (''Compiler: Pattern check not implemented: '' @ tag))"

text \<open>
  The loop of \<^verbatim>\<open>_compilePatternBindStructure\<close> runs over the field names of the
  constructor and reads \<^verbatim>\<open>pattern.parameters[i].value\<close>: where the pattern has
  fewer parameters than the constructor has fields, the parameter is
  \<^verbatim>\<open>undefined\<close> and reading its value throws.
\<close>

fun bindStructureFields ::
  "'p \<Rightarrow> 'p \<Rightarrow> string list \<Rightarrow> string list \<Rightarrow> 'p Compiler \<Rightarrow> error + 'p Compiler"
where
  "bindStructureFields sp ep [] parameters c = Inr c"
| "bindStructureFields sp ep (fieldName # fieldNames) [] c =
     Inl (TypeError ''Cannot read property value of undefined'')"
| "bindStructureFields sp ep (fieldName # fieldNames) (parameter # parameters) c =
     bindStructureFields sp ep fieldNames parameters
       (produceList sp ep [IReadStructureField fieldName, ISetVariable parameter] c)"

fun bindTupleComponents ::
  "'p \<Rightarrow> 'p \<Rightarrow> nat \<Rightarrow> string list \<Rightarrow> 'p Compiler \<Rightarrow> 'p Compiler"
where
  "bindTupleComponents sp ep index [] c = c"
| "bindTupleComponents sp ep index (parameter # parameters) c =
     bindTupleComponents sp ep (index + 1) parameters
       (produceList sp ep [IReadTupleComponent index, ISetVariable parameter] c)"

fun compilePatternBind :: "'p pattern \<Rightarrow> 'p Compiler \<Rightarrow> error + 'p Compiler" where
  "compilePatternBind (PatternWildcard sp ep) c = Inr c"
| "compilePatternBind (PatternStructure sp ep constructorName parameters) c =
     (if length parameters = 0 then Inr c
      else
        thenE (constructorFields (symtable c) constructorName) (\<lambda>fieldNames.
          bindStructureFields sp ep fieldNames parameters c))"
| "compilePatternBind (PatternTuple sp ep parameters) c =
     Inr (bindTupleComponents sp ep 0 parameters c)"
| "compilePatternBind (PatternTimeout sp ep) c = Inr c"
| "compilePatternBind (PatternOther sp ep tag) c =
     Inl (Error (''Compiler: Pattern binding not implemented: '' @ tag))"

fun unbindParameters :: "'p \<Rightarrow> 'p \<Rightarrow> string list \<Rightarrow> 'p Compiler \<Rightarrow> 'p Compiler" where
  "unbindParameters sp ep [] c = c"
| "unbindParameters sp ep (parameter # parameters) c =
     unbindParameters sp ep parameters (produceList sp ep [IUnsetVariable parameter] c)"

fun compilePatternUnbind :: "'p pattern \<Rightarrow> 'p Compiler \<Rightarrow> error + 'p Compiler" where
  "compilePatternUnbind (PatternWildcard sp ep) c = Inr c"
| "compilePatternUnbind (PatternStructure sp ep constructorName parameters) c =
     Inr (unbindParameters sp ep parameters c)"
| "compilePatternUnbind (PatternTuple sp ep parameters) c =
     Inr (unbindParameters sp ep parameters c)"
| "compilePatternUnbind (PatternTimeout sp ep) c = Inr c"
| "compilePatternUnbind (PatternOther sp ep tag) c =
     Inl (Error (''Compiler: Pattern unbinding not implemented: '' @ tag))"

subsection \<open>Statements\<close>

text \<open>
  The first loop of \<^verbatim>\<open>_compileStmtSwitch\<close>: a fresh label for each branch,
  pushed on \<^verbatim>\<open>branchLabels\<close>, and the check of its pattern.
\<close>

fun compileBranchChecks ::
  "(string \<Rightarrow> string) \<Rightarrow> 'p branch list \<Rightarrow> string list \<Rightarrow> 'p Compiler
     \<Rightarrow> error + (string list \<times> 'p Compiler)"
where
  "compileBranchChecks i18n [] branchLabels c = Inr (branchLabels, c)"
| "compileBranchChecks i18n (SwitchBranch bsp bep pattern body # branches) branchLabels c =
     (let (label, c) = freshLabel c in
      thenE (compilePatternCheck i18n pattern label c) (\<lambda>c.
        compileBranchChecks i18n branches (branchLabels @ [label]) c))"

text \<open>The loop of \<^verbatim>\<open>_compileStmtAssignTuple\<close> that assigns each variable.\<close>

fun assignTupleComponents ::
  "'p \<Rightarrow> 'p \<Rightarrow> nat \<Rightarrow> string list \<Rightarrow> 'p Compiler \<Rightarrow> 'p Compiler"
where
  "assignTupleComponents sp ep index [] c = c"
| "assignTupleComponents sp ep index (variable # variables) c =
     assignTupleComponents sp ep (index + 1) variables
       (produceList sp ep [IReadTupleComponent index, ISetVariable variable] c)"

text \<open>
  \<^verbatim>\<open>_compileStatement\<close> with the methods it dispatches to, one equation for
  each tag (two for a conditional: \<^verbatim>\<open>elseBlock\<close> is \<^verbatim>\<open>null\<close> or a
  statement).  \<open>compileStatements\<close> is the loop of a block and
  \<open>compileBranches\<close> the loop of \<^verbatim>\<open>_compileStmtSwitch\<close> that compiles each
  branch; it runs over the indices of \<^verbatim>\<open>branchLabels\<close> and reads
  \<^verbatim>\<open>statement.branches[i]\<close>.

  In a procedure call whose name is not a primitive procedure the next test is
  \<^verbatim>\<open>this._symtable.isFunction(functionName)\<close>, and no \<^verbatim>\<open>functionName\<close> is
  declared in the method or in the module: evaluating the argument throws.
\<close>

fun compileStatement ::
    "(string \<Rightarrow> string) \<Rightarrow> 'p stmt \<Rightarrow> 'p Compiler \<Rightarrow> error + 'p Compiler"
  and compileStatements ::
    "(string \<Rightarrow> string) \<Rightarrow> 'p stmt list \<Rightarrow> 'p Compiler \<Rightarrow> error + 'p Compiler"
  and compileBranches ::
    "(string \<Rightarrow> string) \<Rightarrow> 'p branch list \<Rightarrow> string list \<Rightarrow> string \<Rightarrow> 'p Compiler
       \<Rightarrow> error + 'p Compiler"
where
  "compileStatement i18n (StmtBlock sp ep statements) c =
     compileStatements i18n statements c"
| "compileStatement i18n (StmtReturn sp ep result) c =
     compileExpression result c"
| "compileStatement i18n (StmtIf sp ep condition thenBlock None) c =
     thenE (compileExpression condition c) (\<lambda>c.
       let c = produce (exprStartPos condition) (exprEndPos condition)
                 (ITypeCheck (TypeStructure (i18n ''TYPE:Bool'') [])) c;
           (labelElse, c) = freshLabel c;
           c = produce sp ep (IJumpIfFalse labelElse) c
       in
       thenE (compileStatement i18n thenBlock c) (\<lambda>c.
         Inr (produce sp ep (ILabel labelElse) c)))"
| "compileStatement i18n (StmtIf sp ep condition thenBlock (Some elseBlock)) c =
     thenE (compileExpression condition c) (\<lambda>c.
       let c = produce (exprStartPos condition) (exprEndPos condition)
                 (ITypeCheck (TypeStructure (i18n ''TYPE:Bool'') [])) c;
           (labelElse, c) = freshLabel c;
           c = produce sp ep (IJumpIfFalse labelElse) c
       in
       thenE (compileStatement i18n thenBlock c) (\<lambda>c.
         let (labelEnd, c) = freshLabel c;
             c = produceList sp ep [IJump labelEnd, ILabel labelElse] c
         in
         thenE (compileStatement i18n elseBlock c) (\<lambda>c.
           Inr (produce sp ep (ILabel labelEnd) c))))"
| "compileStatement i18n (StmtRepeat sp ep timesExpr body) c =
     thenE (compileExpression timesExpr c) (\<lambda>c.
       let c = produce (exprStartPos timesExpr) (exprEndPos timesExpr) (ITypeCheck TypeInteger) c;
           (labelStart, c) = freshLabel c;
           (labelEnd, c) = freshLabel c;
           c = produceList sp ep
                 [ILabel labelStart,
                  IDup,
                  IPushInteger (Number 0),
                  IPrimitiveCall ''>'' 2,
                  IJumpIfFalse labelEnd] c
       in
       thenE (compileStatement i18n body c) (\<lambda>c.
         Inr (produceList sp ep
                [IPushInteger (Number 1),
                 IPrimitiveCall ''-'' 2,
                 IJump labelStart,
                 ILabel labelEnd,
                 IPop] c)))"
| "compileStatement i18n (StmtForeach sp ep index rangeExpr body) c =
     (let (labelStart, c) = freshLabel c;
          (labelEnd, c) = freshLabel c;
          (list, c) = freshVariable c;
          (pos, c) = freshVariable c;
          (n, c) = freshVariable c
      in
      thenE (compileExpression rangeExpr c) (\<lambda>c.
        let c = produceList (exprStartPos rangeExpr) (exprEndPos rangeExpr)
                  [ITypeCheck (TypeList TypeAny),
                   ISetVariable list,
                   IPushVariable list,
                   IPrimitiveCall ''_unsafeListLength'' 1,
                   ISetVariable n] c;
            c = produceList sp ep
                  [IPushInteger (Number 0),
                   ISetVariable pos,
                   ILabel labelStart,
                   IPushVariable pos,
                   IPushVariable n,
                   IPrimitiveCall ''<'' 2,
                   IJumpIfFalse labelEnd,
                   IPushVariable list,
                   IPushVariable pos,
                   IPrimitiveCall ''_unsafeListNth'' 2,
                   ISetVariable index] c
        in
        thenE (compileStatement i18n body c) (\<lambda>c.
          Inr (produceList sp ep
                 [IPushVariable pos,
                  IPushInteger (Number 1),
                  IPrimitiveCall ''+'' 2,
                  ISetVariable pos,
                  IJump labelStart,
                  ILabel labelEnd,
                  IUnsetVariable list,
                  IUnsetVariable n,
                  IUnsetVariable pos,
                  IUnsetVariable index] c))))"
| "compileStatement i18n (StmtWhile sp ep condition body) c =
     (let (labelStart, c) = freshLabel c;
          (labelEnd, c) = freshLabel c;
          c = produce sp ep (ILabel labelStart) c
      in
      thenE (compileExpression condition c) (\<lambda>c.
        let c = produceList sp ep
                  [ITypeCheck (TypeStructure (i18n ''TYPE:Bool'') []),
                   IJumpIfFalse labelEnd] c
        in
        thenE (compileStatement i18n body c) (\<lambda>c.
          Inr (produceList sp ep [IJump labelStart, ILabel labelEnd] c))))"
| "compileStatement i18n (StmtSwitch sp ep subject branches) c =
     thenE (compileExpression subject c) (\<lambda>c.
     thenE (compileBranchChecks i18n branches [] c) (\<lambda>(branchLabels, c).
       let c = produceList sp ep
                 [IPushString (i18n ''errmsg:switch-does-not-match''),
                  IPrimitiveCall ''_FAIL'' 1] c;
           (labelEnd, c) = freshLabel c
       in
       thenE (compileBranches i18n branches branchLabels labelEnd c) (\<lambda>c.
         Inr (produce sp ep (ILabel labelEnd) c))))"
| "compileStatement i18n (StmtAssignVariable sp ep variable val) c =
     thenE (compileExpression val c) (\<lambda>c.
       Inr (produce sp ep (ISetVariable variable) c))"
| "compileStatement i18n (StmtAssignTuple sp ep variables val) c =
     thenE (compileExpression val c) (\<lambda>c.
       let expectedType = TypeTuple (replicate (length variables) TypeAny);
           c = produce sp ep (ITypeCheck expectedType) c;
           c = assignTupleComponents sp ep 0 variables c
       in Inr (produce sp ep IPop c))"
| "compileStatement i18n (StmtProcedureCall sp ep procedureName args) c =
     thenE (compileExpressions args c) (\<lambda>c.
       if isProcedure (primitives c) procedureName then
         Inr (produce sp ep (IPrimitiveCall procedureName (length args)) c)
       else
         Inl (ReferenceError ''functionName is not defined''))"
| "compileStatement i18n (StmtOther sp ep tag) c =
     Inl (Error (''Compiler: Statement not implemented: '' @ tag))"
| "compileStatements i18n [] c = Inr c"
| "compileStatements i18n (statement # statements) c =
     thenE (compileStatement i18n statement c) (\<lambda>c.
       compileStatements i18n statements c)"
| "compileBranches i18n branches [] labelEnd c = Inr c"
| "compileBranches i18n [] (label # branchLabels) labelEnd c =
     Inl (TypeError ''Cannot read property startPos of undefined'')"
| "compileBranches i18n (SwitchBranch bsp bep pattern body # branches)
       (label # branchLabels) labelEnd c =
     (let c = produce bsp bep (ILabel label) c in
      thenE (compilePatternBind pattern c) (\<lambda>c.
        let c = produce bsp bep IPop c in
        thenE (compileStatement i18n body c) (\<lambda>c.
        thenE (compilePatternUnbind pattern c) (\<lambda>c.
          let c = produce bsp bep (IJump labelEnd) c in
          compileBranches i18n branches branchLabels labelEnd c))))"

subsection \<open>The top-level driver\<close>

text \<open>
  \<^verbatim>\<open>_compileInteractiveProgram\<close>, \<^verbatim>\<open>_compileProcedure\<close> and
  \<^verbatim>\<open>_compileFunction\<close> have empty bodies.
\<close>

definition compileProgram ::
  "(string \<Rightarrow> string) \<Rightarrow> 'p \<Rightarrow> 'p \<Rightarrow> 'p stmt \<Rightarrow> 'p Compiler \<Rightarrow> error + 'p Compiler"
where
  "compileProgram i18n sp ep body c =
     thenE (compileStatement i18n body c) (\<lambda>c. Inr (produce sp ep IReturn c))"

fun compilePrograms ::
  "(string \<Rightarrow> string) \<Rightarrow> 'p defn list \<Rightarrow> 'p Compiler \<Rightarrow> error + 'p Compiler"
where
  "compilePrograms i18n [] c = Inr c"
| "compilePrograms i18n (DefProgram sp ep body # defs) c =
     thenE (compileProgram i18n sp ep body c) (\<lambda>c. compilePrograms i18n defs c)"
| "compilePrograms i18n (DefInteractiveProgram sp ep # defs) c = compilePrograms i18n defs c"
| "compilePrograms i18n (d # defs) c = compilePrograms i18n defs c"

fun compileCallables :: "'p defn list \<Rightarrow> 'p Compiler \<Rightarrow> error + 'p Compiler" where
  "compileCallables [] c = Inr c"
| "compileCallables (DefProcedure sp ep # defs) c = compileCallables defs c"
| "compileCallables (DefFunction sp ep # defs) c = compileCallables defs c"
| "compileCallables (d # defs) c = compileCallables defs c"

definition compileMain ::
  "(string \<Rightarrow> string) \<Rightarrow> 'p main \<Rightarrow> 'p Compiler \<Rightarrow> error + 'p Compiler"
where
  "compileMain i18n ast c =
     (if length (definitions ast) = 0 then
        Inr (produce (mainStartPos ast) (mainEndPos ast) IReturn c)
      else
        thenE (compilePrograms i18n (definitions ast) c) (\<lambda>c.
          compileCallables (definitions ast) c))"

definition compile ::
  "(string \<Rightarrow> string) \<Rightarrow> 'p main \<Rightarrow> 'p Compiler \<Rightarrow> error + 'p instruction list"
where
  "compile i18n ast c = thenE (compileMain i18n ast c) (\<lambda>c. Inr (code c))"

subsection \<open>Relations between the states before and after a compilation step\<close>

text \<open>
  \<open>extends c c'\<close>: the code of \<open>c'\<close> is the code of \<open>c\<close> with instructions
  appended, the counters have not decreased, and the symbol table and the
  primitives are the same.  \<open>pushes c c'\<close>: moreover no fresh name was taken.
  \<open>emitted c c'\<close> is the code appended between the two states.
\<close>

definition extends :: "'p Compiler \<Rightarrow> 'p Compiler \<Rightarrow> bool" where
  "extends c c' \<longleftrightarrow>
     (\<exists>out. code c' = code c @ out) \<and> nextLabel c \<le> nextLabel c' \<and>
     nextVariable c \<le> nextVariable c' \<and>
     symtable c' = symtable c \<and> primitives c' = primitives c"

definition pushes :: "'p Compiler \<Rightarrow> 'p Compiler \<Rightarrow> bool" where
  "pushes c c' \<longleftrightarrow>
     extends c c' \<and> nextLabel c' = nextLabel c \<and> nextVariable c' = nextVariable c"

definition emitted :: "'p Compiler \<Rightarrow> 'p Compiler \<Rightarrow> 'p instruction list" where
  "emitted c c' = drop (length (code c)) (code c')"

subsection \<open>Observations on trees and code, and sample catalogues\<close>

text \<open>The definitions the entry sweep of \<^verbatim>\<open>_compileMain\<close> acts on.\<close>

fun isEntryDefinition :: "'p defn \<Rightarrow> bool" where
  "isEntryDefinition (DefProgram sp ep body) = True"
| "isEntryDefinition (DefInteractiveProgram sp ep) = True"
| "isEntryDefinition (DefProcedure sp ep) = False"
| "isEntryDefinition (DefFunction sp ep) = False"
| "isEntryDefinition (DefType sp ep) = False"

text \<open>
  A catalogue of primitives and a symbol table for the concrete runs: the
  primitives the lowerings themselves call, one procedure of the language, and
  one type with two constructors.
\<close>

definition samplePrimitives :: RuntimePrimitives where
  "samplePrimitives =
     \<lparr> isProcedure = (\<lambda>name. name \<in> set [''Poner'', ''_FAIL'']),
       isFunction = (\<lambda>name. name \<in> set [''>'', ''<'', ''+'', ''-'',
                                          ''_unsafeListLength'', ''_unsafeListNth'']) \<rparr>"

definition sampleSymbolTable :: SymbolTable where
  "sampleSymbolTable =
     \<lparr> constructorTypes = [''Coord'' \<mapsto> ''Cell'', ''Nowhere'' \<mapsto> ''Cell''],
       constructorFieldNames = [''Coord'' \<mapsto> [''x'', ''y''], ''Nowhere'' \<mapsto> []] \<rparr>"

text \<open>
  The names of the labels a code declares, and the targets of its jumps, in the
  order of the code.  \<open>labelName k\<close> is the name \<^verbatim>\<open>_freshLabel\<close> builds when
  the counter is \<open>k\<close>.
\<close>

fun instrLabels :: "instr \<Rightarrow> string list" where
  "instrLabels (ILabel l) = [l]"
| "instrLabels i = []"

fun instrTargets :: "instr \<Rightarrow> string list" where
  "instrTargets (IJump l) = [l]"
| "instrTargets (IJumpIfFalse l) = [l]"
| "instrTargets (IJumpIfStructure constructorName l) = [l]"
| "instrTargets (IJumpIfTuple n l) = [l]"
| "instrTargets i = []"

definition labelsOf :: "'p instruction list \<Rightarrow> string list" where
  "labelsOf is = concat (map (\<lambda>i. instrLabels (opcode i)) is)"

definition targetsOf :: "'p instruction list \<Rightarrow> string list" where
  "targetsOf is = concat (map (\<lambda>i. instrTargets (opcode i)) is)"

definition labelName :: "nat \<Rightarrow> string" where
  "labelName k = ''_l'' @ toString k"

text \<open>
  \<open>labelFree c c'\<close>: the step from \<open>c\<close> to \<open>c'\<close> took no fresh name and
  emitted neither a label nor a jump.  \<open>declares out D T\<close>: the labels of the
  code \<open>out\<close> are pairwise different, they are the names of the counter
  values in \<open>D\<close>, and every jump of \<open>out\<close> goes to the name of a counter
  value in \<open>T\<close>.  \<open>wellLabelled c c'\<close>: the code emitted between \<open>c\<close> and
  \<open>c'\<close> declares the labels taken from the counter between the two states,
  each once, and jumps only to them.
\<close>

definition labelFree :: "'p Compiler \<Rightarrow> 'p Compiler \<Rightarrow> bool" where
  "labelFree c c' \<longleftrightarrow>
     pushes c c' \<and> labelsOf (emitted c c') = [] \<and> targetsOf (emitted c c') = []"

definition declares :: "'p instruction list \<Rightarrow> nat set \<Rightarrow> nat set \<Rightarrow> bool" where
  "declares out D T \<longleftrightarrow>
     distinct (labelsOf out) \<and> set (labelsOf out) = labelName ` D \<and>
     set (targetsOf out) \<subseteq> labelName ` T"

definition wellLabelled :: "'p Compiler \<Rightarrow> 'p Compiler \<Rightarrow> bool" where
  "wellLabelled c c' \<longleftrightarrow>
     extends c c' \<and>
     declares (emitted c c') {nextLabel c ..< nextLabel c'} {nextLabel c ..< nextLabel c'}"

text \<open>
  \<open>continues c out l v c'\<close>: the state \<open>c'\<close> is the state \<open>c\<close> after
  appending the instructions \<open>out\<close> and taking \<open>l\<close> fresh labels and \<open>v\<close>
  fresh variables.  \<open>variableName k\<close> is the name \<^verbatim>\<open>_freshVariable\<close> builds
  when the counter is \<open>k\<close>.
\<close>

definition continues ::
  "'p Compiler \<Rightarrow> 'p instruction list \<Rightarrow> nat \<Rightarrow> nat \<Rightarrow> 'p Compiler \<Rightarrow> bool"
where
  "continues c out l v c' \<longleftrightarrow>
     code c' = code c @ out \<and> nextLabel c' = nextLabel c + l \<and>
     nextVariable c' = nextVariable c + v \<and>
     symtable c' = symtable c \<and> primitives c' = primitives c"

definition variableName :: "nat \<Rightarrow> string" where
  "variableName k = ''_v'' @ toString k"

section \<open>Properties of the compiler\<close>

subsection \<open>Basic facts about the code builder\<close>

lemma thenE_Inl [simp]: "thenE (Inl e) k = Inl e"
  by (simp add: thenE_def)

lemma thenE_Inr [simp]: "thenE (Inr x) k = k x"
  by (simp add: thenE_def)

lemma thenE_eq_Inr: "thenE r k = Inr y \<longleftrightarrow> (\<exists>x. r = Inr x \<and> k x = Inr y)"
  by (cases r) simp_all

lemma produce_fields [simp]:
  "code (produce sp ep i c) = code c @ [Instruction i sp ep]"
  "nextLabel (produce sp ep i c) = nextLabel c"
  "nextVariable (produce sp ep i c) = nextVariable c"
  "symtable (produce sp ep i c) = symtable c"
  "primitives (produce sp ep i c) = primitives c"
  by (simp_all add: produce_def)

lemma produceList_code [simp]:
  "code (produceList sp ep is c) = code c @ map (\<lambda>i. Instruction i sp ep) is"
  by (induction "is" arbitrary: c) simp_all

lemma produceList_nextLabel [simp]: "nextLabel (produceList sp ep is c) = nextLabel c"
  by (induction "is" arbitrary: c) simp_all

lemma produceList_nextVariable [simp]: "nextVariable (produceList sp ep is c) = nextVariable c"
  by (induction "is" arbitrary: c) simp_all

lemma produceList_symtable [simp]: "symtable (produceList sp ep is c) = symtable c"
  by (induction "is" arbitrary: c) simp_all

lemma produceList_primitives [simp]: "primitives (produceList sp ep is c) = primitives c"
  by (induction "is" arbitrary: c) simp_all

lemma freshLabel_fields [simp]:
  "fst (freshLabel c) = ''_l'' @ toString (nextLabel c)"
  "code (snd (freshLabel c)) = code c"
  "nextLabel (snd (freshLabel c)) = nextLabel c + 1"
  "nextVariable (snd (freshLabel c)) = nextVariable c"
  "symtable (snd (freshLabel c)) = symtable c"
  "primitives (snd (freshLabel c)) = primitives c"
  by (simp_all add: freshLabel_def)

lemma freshVariable_fields [simp]:
  "fst (freshVariable c) = ''_v'' @ toString (nextVariable c)"
  "code (snd (freshVariable c)) = code c"
  "nextLabel (snd (freshVariable c)) = nextLabel c"
  "nextVariable (snd (freshVariable c)) = nextVariable c + 1"
  "symtable (snd (freshVariable c)) = symtable c"
  "primitives (snd (freshVariable c)) = primitives c"
  by (simp_all add: freshVariable_def)

text \<open>Lifting a reflexive and transitive relation between states over the loops.\<close>

lemma compileExpressions_lift:
  assumes refl: "\<And>c. R c c"
    and trans: "\<And>a b c. R a b \<Longrightarrow> R b c \<Longrightarrow> R a c"
    and elem: "\<And>e c c'. e \<in> set es \<Longrightarrow> compileExpression e c = Inr c' \<Longrightarrow> R c c'"
    and run: "compileExpressions es c = Inr c'"
  shows "R c c'"
  using elem run
proof (induction es arbitrary: c)
  case Nil
  then show ?case by (simp add: refl)
next
  case (Cons e es)
  from Cons.prems(2) obtain c1 where
    1: "compileExpression e c = Inr c1" and 2: "compileExpressions es c1 = Inr c'"
    by (auto simp: thenE_eq_Inr)
  have "R c c1" using Cons.prems(1) 1 by auto
  moreover have "R c1 c'" using Cons.IH Cons.prems(1) 2 by auto
  ultimately show ?case by (rule trans)
qed

lemma compileFieldBindings_lift:
  assumes refl: "\<And>c. R c c"
    and trans: "\<And>a b c. R a b \<Longrightarrow> R b c \<Longrightarrow> R a c"
    and elem: "\<And>f e c c'. (f, e) \<in> set fs \<Longrightarrow> compileExpression e c = Inr c' \<Longrightarrow> R c c'"
    and run: "compileFieldBindings fs c = Inr c'"
  shows "R c c'"
  using elem run
proof (induction fs arbitrary: c)
  case Nil
  then show ?case by (simp add: refl)
next
  case (Cons fb fs)
  from Cons.prems(2) obtain c1 where
    1: "compileExpression (snd fb) c = Inr c1" and 2: "compileFieldBindings fs c1 = Inr c'"
    by (auto simp: thenE_eq_Inr)
  have "R c c1" using Cons.prems(1) [of "fst fb" "snd fb"] 1 by auto
  moreover have "R c1 c'"
  proof (rule Cons.IH [OF _ 2])
    fix f e c c' assume "(f, e) \<in> set fs" "compileExpression e c = Inr c'"
    then show "R c c'" using Cons.prems(1) [of f e c c'] by simp
  qed
  ultimately show ?case by (rule trans)
qed

lemma compileStatements_lift:
  assumes refl: "\<And>c. R c c"
    and trans: "\<And>a b c. R a b \<Longrightarrow> R b c \<Longrightarrow> R a c"
    and elem: "\<And>s c c'. s \<in> set ss \<Longrightarrow> compileStatement i18n s c = Inr c' \<Longrightarrow> R c c'"
    and run: "compileStatements i18n ss c = Inr c'"
  shows "R c c'"
  using elem run
proof (induction ss arbitrary: c)
  case Nil
  then show ?case by (simp add: refl)
next
  case (Cons s ss)
  from Cons.prems(2) obtain c1 where
    1: "compileStatement i18n s c = Inr c1" and 2: "compileStatements i18n ss c1 = Inr c'"
    by (auto simp: thenE_eq_Inr)
  have "R c c1" using Cons.prems(1) 1 by auto
  moreover have "R c1 c'" using Cons.IH Cons.prems(1) 2 by auto
  ultimately show ?case by (rule trans)
qed

subsection \<open>What a compilation step leaves unchanged\<close>

lemma extends_refl: "extends c c"
  by (simp add: extends_def)

lemma extends_trans: "extends a b \<Longrightarrow> extends b c \<Longrightarrow> extends a c"
  by (auto simp: extends_def)

lemma pushes_refl: "pushes c c"
  by (simp add: pushes_def extends_refl)

lemma pushes_trans: "pushes a b \<Longrightarrow> pushes b c \<Longrightarrow> pushes a c"
  by (auto simp: pushes_def intro: extends_trans)

lemma pushes_produce [simp]: "pushes c (produce sp ep i c)"
  by (simp add: pushes_def extends_def)

lemma pushes_then_produce: "pushes c c1 \<Longrightarrow> pushes c (produce sp ep i c1)"
  by (rule pushes_trans [OF _ pushes_produce])

lemma compileExpression_pushes:
  "compileExpression e c = Inr c' \<Longrightarrow> pushes c c'"
proof (induction e arbitrary: c c')
  case (ExprList sp ep es)
  then obtain c1 where 1: "compileExpressions es c = Inr c1"
    and 2: "c' = produce sp ep (IMakeList (length es)) c1"
    by (auto simp: thenE_eq_Inr)
  have "pushes c c1"
    by (rule compileExpressions_lift [where R = pushes, OF pushes_refl pushes_trans ExprList.IH 1])
  then show ?case unfolding 2 by (rule pushes_then_produce)
next
  case (ExprTuple sp ep es)
  then obtain c1 where 1: "compileExpressions es c = Inr c1"
    and 2: "c' = produce sp ep (IMakeTuple (length es)) c1"
    by (auto simp: thenE_eq_Inr)
  have "pushes c c1"
    by (rule compileExpressions_lift [where R = pushes, OF pushes_refl pushes_trans ExprTuple.IH 1])
  then show ?case unfolding 2 by (rule pushes_then_produce)
next
  case (ExprStructure sp ep cn fs)
  then obtain c1 tn where 1: "compileFieldBindings fs c = Inr c1"
    and 2: "c' = produce sp ep (IMakeStructure tn cn (map fst fs)) c1"
    by (auto simp: thenE_eq_Inr)
  have "pushes c c1"
  proof (rule compileFieldBindings_lift [where R = pushes, OF pushes_refl pushes_trans _ 1])
    fix f e c c' assume "(f, e) \<in> set fs" "compileExpression e c = Inr c'"
    then show "pushes c c'" using ExprStructure.IH [of "(f, e)" e] by simp
  qed
  then show ?case unfolding 2 by (rule pushes_then_produce)
next
  case (ExprFunctionCall sp ep f es)
  then obtain c1 where 1: "compileExpressions es c = Inr c1"
    and 2: "c' = produce sp ep (IPrimitiveCall f (length es)) c1"
    by (auto simp: thenE_eq_Inr split: if_splits)
  have "pushes c c1"
    by (rule compileExpressions_lift [where R = pushes, OF pushes_refl pushes_trans ExprFunctionCall.IH 1])
  then show ?case unfolding 2 by (rule pushes_then_produce)
qed (auto simp: pushes_refl)

subsection \<open>The driver, and the constructs that are not lowered\<close>

lemma toString_digits:
  "toString 0 = ''0''" "toString 1 = ''1''" "toString 2 = ''2''" "toString 3 = ''3''"
  "toString (Suc 0) = ''1''" "toString (Suc (Suc 0)) = ''2''"
  by (simp_all add: toString.simps digit_def)

lemma compilePrograms_no_entry:
  "\<forall>d \<in> set defs. \<not> isEntryDefinition d \<Longrightarrow> compilePrograms i18n defs c = Inr c"
proof (induction defs)
  case Nil
  then show ?case by simp
next
  case (Cons d defs)
  then show ?case by (cases d) simp_all
qed

lemma compileCallables_nothing: "compileCallables defs c = Inr c"
proof (induction defs)
  case Nil
  then show ?case by simp
next
  case (Cons d defs)
  then show ?case by (cases d) simp_all
qed

text \<open>
  C8.  For an abstract syntax tree with no definitions, a freshly constructed
  compiler returns a code of exactly one instruction, \<open>Return\<close>, whose two
  positions are those of the root of the tree.
\<close>

theorem C8_empty_program:
  "definitions ast = [] \<Longrightarrow>
   compile i18n ast (newCompiler prims symtab) =
     Inr [Instruction IReturn (mainStartPos ast) (mainEndPos ast)]"
  by (simp add: compile_def compileMain_def newCompiler_def)

theorem C8_empty_program_witness:
  "definitions (Main [] (1::nat) 2) = [] \<and>
   compile id (Main [] (1::nat) 2) (newCompiler samplePrimitives sampleSymbolTable) =
     Inr [Instruction IReturn 1 2]"
  using C8_empty_program [of "Main [] (1::nat) 2" id samplePrimitives sampleSymbolTable]
  by simp

text \<open>
  C10.  For a tree whose list of definitions is not empty and holds no program
  and no interactive program, a freshly constructed compiler raises nothing
  and returns the empty code: no instruction at all, in particular no
  \<open>Return\<close>.
\<close>

theorem C10_no_entry_point:
  "definitions ast \<noteq> [] \<Longrightarrow> \<forall>d \<in> set (definitions ast). \<not> isEntryDefinition d \<Longrightarrow>
   compile i18n ast (newCompiler prims symtab) = Inr []"
  by (simp add: compile_def compileMain_def compilePrograms_no_entry
      compileCallables_nothing newCompiler_def)

theorem C10_no_entry_point_witness:
  "definitions (Main [DefType 1 2, DefProcedure 3 4, DefFunction 5 6] (0::nat) 7) \<noteq> [] \<and>
   compile id (Main [DefType 1 2, DefProcedure 3 4, DefFunction 5 6] (0::nat) 7)
     (newCompiler samplePrimitives sampleSymbolTable) = Inr []"
  using C10_no_entry_point
    [of "Main [DefType 1 2, DefProcedure 3 4, DefFunction 5 6] (0::nat) 7"
        id samplePrimitives sampleSymbolTable]
  by simp

text \<open>
  C7.  What the compiler does on the constructs it does not lower.  A function
  call of \<open>&&\<close> or of \<open>||\<close> raises the error "short-circuiting not
  implemented".  A range and a structure update raise nothing: the compiler
  returns with its state unchanged, no instruction produced.
\<close>

theorem C7_unimplemented_expressions:
  "compileExpression (ExprRange sp ep) c = Inr c \<and>
   compileExpression (ExprStructureUpdate sp ep) c = Inr c \<and>
   compileExpression (ExprFunctionCall sp ep ''&&'' args) c =
     Inl (Error ''short-circuiting not implemented'') \<and>
   compileExpression (ExprFunctionCall sp ep ''||'' args) c =
     Inl (Error ''short-circuiting not implemented'')"
  by simp

text \<open>
  C4.  The call of a procedure that is not a primitive: the arguments (none
  here) are compiled, the test for a primitive fails, and the next test reads
  the undeclared name \<^verbatim>\<open>functionName\<close>.  The compilation ends with a
  \<open>ReferenceError\<close>, whatever the symbol table says about the procedure;
  neither the error "not implemented" nor the error "undefined procedure" is
  raised.
\<close>

theorem C4_procedure_call_not_primitive:
  "compileStatement i18n (StmtProcedureCall sp ep ''Mover'' [])
     (newCompiler samplePrimitives symtab) =
   Inl (ReferenceError ''functionName is not defined'')"
  by (simp add: newCompiler_def samplePrimitives_def)

lemma procedure_call_primitive:
  "compileExpressions args c = Inr c1 \<Longrightarrow> isProcedure (primitives c1) p \<Longrightarrow>
   compileStatement i18n (StmtProcedureCall sp ep p args) c =
     Inr (produce sp ep (IPrimitiveCall p (length args)) c1)"
  by simp

lemma procedure_call_not_primitive:
  "compileExpressions args c = Inr c1 \<Longrightarrow> \<not> isProcedure (primitives c1) p \<Longrightarrow>
   compileStatement i18n (StmtProcedureCall sp ep p args) c =
     Inl (ReferenceError ''functionName is not defined'')"
  by simp

subsection \<open>Fresh names are different\<close>

lemma digit_inject: "a < 10 \<Longrightarrow> b < 10 \<Longrightarrow> digit a = digit b \<Longrightarrow> a = b"
  unfolding digit_def
  by (simp split: if_splits; presburger)

lemma toString_not_Nil: "toString n \<noteq> []"
  by (subst toString.simps) simp

lemma toString_inject: "toString n = toString m \<Longrightarrow> n = m"
proof (induction n arbitrary: m rule: toString.induct)
  case (1 n)
  show ?case
  proof (cases "n < 10")
    case True
    show ?thesis
    proof (cases "m < 10")
      case mT: True
      with True "1.prems" show ?thesis
        by (simp add: toString.simps [of n] toString.simps [of m] digit_inject)
    next
      case False
      with True "1.prems" show ?thesis
        using toString_not_Nil [of "m div 10"]
        by (simp add: toString.simps [of n] toString.simps [of m])
    qed
  next
    case False
    show ?thesis
    proof (cases "m < 10")
      case True
      with False "1.prems" show ?thesis
        using toString_not_Nil [of "n div 10"]
        by (simp add: toString.simps [of n] toString.simps [of m])
    next
      case mF: False
      with False "1.prems" have
        "toString (n div 10) = toString (m div 10)" "digit (n mod 10) = digit (m mod 10)"
        by (simp_all add: toString.simps [of n] toString.simps [of m])
      then have "n div 10 = m div 10" "n mod 10 = m mod 10"
        using "1.IH" [OF False] digit_inject [of "n mod 10" "m mod 10"] by simp_all
      then show ?thesis by (metis div_mult_mod_eq)
    qed
  qed
qed

lemma labelName_inject [simp]: "labelName a = labelName b \<longleftrightarrow> a = b"
  by (auto simp: labelName_def dest: toString_inject)

lemma inj_labelName: "inj labelName"
  by (simp add: inj_def)

subsection \<open>Labels and jumps of the emitted code\<close>

lemma labelsOf_simps [simp]:
  "labelsOf [] = []"
  "labelsOf (i # is) = instrLabels (opcode i) @ labelsOf is"
  "labelsOf (is @ js) = labelsOf is @ labelsOf js"
  by (simp_all add: labelsOf_def)

lemma targetsOf_simps [simp]:
  "targetsOf [] = []"
  "targetsOf (i # is) = instrTargets (opcode i) @ targetsOf is"
  "targetsOf (is @ js) = targetsOf is @ targetsOf js"
  by (simp_all add: targetsOf_def)

lemma emitted_append [simp]: "code c' = code c @ out \<Longrightarrow> emitted c c' = out"
  by (simp add: emitted_def)

lemma emitted_self [simp]: "emitted c c = []"
  by (simp add: emitted_def)

lemma extends_iff:
  "extends c c' \<longleftrightarrow>
     code c' = code c @ emitted c c' \<and> nextLabel c \<le> nextLabel c' \<and>
     nextVariable c \<le> nextVariable c' \<and>
     symtable c' = symtable c \<and> primitives c' = primitives c"
  by (auto simp: extends_def)

lemma labelFree_iff:
  "labelFree c c' \<longleftrightarrow>
     (\<exists>out. code c' = code c @ out \<and> labelsOf out = [] \<and> targetsOf out = []) \<and>
     nextLabel c' = nextLabel c \<and> nextVariable c' = nextVariable c \<and>
     symtable c' = symtable c \<and> primitives c' = primitives c"
  by (auto simp: labelFree_def pushes_def extends_def)

lemma wellLabelled_iff:
  "wellLabelled c c' \<longleftrightarrow>
     (\<exists>out. code c' = code c @ out \<and>
        declares out {nextLabel c ..< nextLabel c'} {nextLabel c ..< nextLabel c'}) \<and>
     nextLabel c \<le> nextLabel c' \<and> nextVariable c \<le> nextVariable c' \<and>
     symtable c' = symtable c \<and> primitives c' = primitives c"
  by (auto simp: wellLabelled_def extends_def)

lemma declares_Nil: "declares [] {} {}"
  by (simp add: declares_def)

lemma declares_append:
  "declares a D1 T1 \<Longrightarrow> declares b D2 T2 \<Longrightarrow> D1 \<inter> D2 = {} \<Longrightarrow>
   declares (a @ b) (D1 \<union> D2) (T1 \<union> T2)"
  using inj_labelName
  by (auto simp: declares_def image_Un inj_image_mem_iff)

lemma declares_Cons:
  "declares [i] D1 T1 \<Longrightarrow> declares (j # js) D2 T2 \<Longrightarrow> D1 \<inter> D2 = {} \<Longrightarrow>
   declares (i # j # js) (D1 \<union> D2) (T1 \<union> T2)"
  using declares_append [of "[i]" D1 T1 "j # js" D2 T2] by simp

lemma declares_Cons_any:
  "declares [i] D1 T1 \<Longrightarrow> declares is D2 T2 \<Longrightarrow> D1 \<inter> D2 = {} \<Longrightarrow>
   declares (i # is) (D1 \<union> D2) (T1 \<union> T2)"
  using declares_append [of "[i]" D1 T1 "is" D2 T2] by simp

lemma declares_Cons_append:
  "declares [i] D1 T1 \<Longrightarrow> declares (js @ ks) D2 T2 \<Longrightarrow> D1 \<inter> D2 = {} \<Longrightarrow>
   declares (i # js @ ks) (D1 \<union> D2) (T1 \<union> T2)"
  using declares_append [of "[i]" D1 T1 "js @ ks" D2 T2] by simp

lemma declares_weaken:
  "declares out D T \<Longrightarrow> D = D' \<Longrightarrow> T \<subseteq> T' \<Longrightarrow> declares out D' T'"
  unfolding declares_def by blast

lemma declares_plain:
  "instrLabels i = [] \<Longrightarrow> instrTargets i = [] \<Longrightarrow> declares [Instruction i sp ep] {} {}"
  by (simp add: declares_def)

lemma declares_Label: "declares [Instruction (ILabel (labelName k)) sp ep] {k} {}"
  by (simp add: declares_def)

lemma declares_Jump: "declares [Instruction (IJump (labelName k)) sp ep] {} {k}"
  by (simp add: declares_def)

lemma declares_JumpIfFalse: "declares [Instruction (IJumpIfFalse (labelName k)) sp ep] {} {k}"
  by (simp add: declares_def)

lemma declares_none: "labelsOf out = [] \<Longrightarrow> targetsOf out = [] \<Longrightarrow> declares out {} {}"
  by (simp add: declares_def)

lemma labelFree_refl: "labelFree c c"
  by (simp add: labelFree_iff)

lemma labelFree_trans: "labelFree a b \<Longrightarrow> labelFree b c \<Longrightarrow> labelFree a c"
  by (auto simp: labelFree_iff)

lemma labelFree_wellLabelled: "labelFree c c' \<Longrightarrow> wellLabelled c c'"
  by (auto simp: labelFree_iff wellLabelled_iff declares_def)

lemma wellLabelled_refl: "wellLabelled c c"
  by (simp add: wellLabelled_iff declares_Nil)

lemma wellLabelled_trans:
  assumes "wellLabelled a b" "wellLabelled b c"
  shows "wellLabelled a c"
proof -
  from assms(1) obtain o1 where 1: "code b = code a @ o1"
    "declares o1 {nextLabel a ..< nextLabel b} {nextLabel a ..< nextLabel b}"
    "nextLabel a \<le> nextLabel b" "nextVariable a \<le> nextVariable b"
    "symtable b = symtable a" "primitives b = primitives a"
    by (auto simp: wellLabelled_iff)
  from assms(2) obtain o2 where 2: "code c = code b @ o2"
    "declares o2 {nextLabel b ..< nextLabel c} {nextLabel b ..< nextLabel c}"
    "nextLabel b \<le> nextLabel c" "nextVariable b \<le> nextVariable c"
    "symtable c = symtable b" "primitives c = primitives b"
    by (auto simp: wellLabelled_iff)
  have "declares (o1 @ o2) {nextLabel a ..< nextLabel c} {nextLabel a ..< nextLabel c}"
    using 1(3) 2(3)
    by (rule_tac declares_weaken [OF declares_append [OF 1(2) 2(2)]]) auto
  then show ?thesis
    unfolding wellLabelled_iff
    using 1 2 by (intro conjI exI [of _ "o1 @ o2"]) simp_all
qed

lemma compileExpression_labelFree:
  "compileExpression e c = Inr c' \<Longrightarrow> labelFree c c'"
proof (induction e arbitrary: c c')
  case (ExprList sp ep es)
  then obtain c1 where 1: "compileExpressions es c = Inr c1"
    and 2: "c' = produce sp ep (IMakeList (length es)) c1"
    by (auto simp: thenE_eq_Inr)
  have "labelFree c c1"
    by (rule compileExpressions_lift [where R = labelFree, OF labelFree_refl labelFree_trans ExprList.IH 1])
  then show ?case unfolding 2 by (auto simp: labelFree_iff)
next
  case (ExprTuple sp ep es)
  then obtain c1 where 1: "compileExpressions es c = Inr c1"
    and 2: "c' = produce sp ep (IMakeTuple (length es)) c1"
    by (auto simp: thenE_eq_Inr)
  have "labelFree c c1"
    by (rule compileExpressions_lift [where R = labelFree, OF labelFree_refl labelFree_trans ExprTuple.IH 1])
  then show ?case unfolding 2 by (auto simp: labelFree_iff)
next
  case (ExprStructure sp ep cn fs)
  then obtain c1 tn where 1: "compileFieldBindings fs c = Inr c1"
    and 2: "c' = produce sp ep (IMakeStructure tn cn (map fst fs)) c1"
    by (auto simp: thenE_eq_Inr)
  have "labelFree c c1"
  proof (rule compileFieldBindings_lift [where R = labelFree, OF labelFree_refl labelFree_trans _ 1])
    fix f e c c' assume "(f, e) \<in> set fs" "compileExpression e c = Inr c'"
    then show "labelFree c c'" using ExprStructure.IH [of "(f, e)" e] by simp
  qed
  then show ?case unfolding 2 by (auto simp: labelFree_iff)
next
  case (ExprFunctionCall sp ep f es)
  then obtain c1 where 1: "compileExpressions es c = Inr c1"
    and 2: "c' = produce sp ep (IPrimitiveCall f (length es)) c1"
    by (auto simp: thenE_eq_Inr split: if_splits)
  have "labelFree c c1"
    by (rule compileExpressions_lift [where R = labelFree, OF labelFree_refl labelFree_trans ExprFunctionCall.IH 1])
  then show ?case unfolding 2 by (auto simp: labelFree_iff)
qed (auto simp: labelFree_iff)

lemma compileExpressions_labelFree:
  "compileExpressions es c = Inr c' \<Longrightarrow> labelFree c c'"
  by (rule compileExpressions_lift [where R = labelFree, OF labelFree_refl labelFree_trans])
    (auto dest: compileExpression_labelFree)

lemma compilePatternCheck_jumps:
  "compilePatternCheck i18n p l c = Inr c' \<Longrightarrow>
   (\<exists>out. code c' = code c @ out \<and> labelsOf out = [] \<and> set (targetsOf out) = {l}) \<and>
   nextLabel c' = nextLabel c \<and> nextVariable c' = nextVariable c \<and>
   symtable c' = symtable c \<and> primitives c' = primitives c"
  by (cases p) (auto simp: thenE_eq_Inr Let_def)

lemma bindStructureFields_labelFree:
  "bindStructureFields sp ep fs ps c = Inr c' \<Longrightarrow> labelFree c c'"
proof (induction sp ep fs ps c rule: bindStructureFields.induct)
  case (3 sp ep f fs p ps c)
  from "3.prems" have "labelFree (produceList sp ep [IReadStructureField f, ISetVariable p] c) c'"
    using "3.IH" by simp
  then show ?case by (auto simp: labelFree_iff)
qed (auto simp: labelFree_iff)

lemma bindTupleComponents_labelFree: "labelFree c (bindTupleComponents sp ep k ps c)"
proof (induction ps arbitrary: k c)
  case Nil
  then show ?case by (simp add: labelFree_refl)
next
  case (Cons p ps)
  have "labelFree c (produceList sp ep [IReadTupleComponent k, ISetVariable p] c)"
    by (simp add: labelFree_iff)
  then show ?case using Cons.IH labelFree_trans by fastforce
qed

lemma assignTupleComponents_labelFree: "labelFree c (assignTupleComponents sp ep k vs c)"
proof (induction vs arbitrary: k c)
  case Nil
  then show ?case by (simp add: labelFree_refl)
next
  case (Cons v vs)
  have "labelFree c (produceList sp ep [IReadTupleComponent k, ISetVariable v] c)"
    by (simp add: labelFree_iff)
  then show ?case using Cons.IH labelFree_trans by fastforce
qed

lemma unbindParameters_labelFree: "labelFree c (unbindParameters sp ep ps c)"
proof (induction ps arbitrary: c)
  case Nil
  then show ?case by (simp add: labelFree_refl)
next
  case (Cons p ps)
  have "labelFree c (produceList sp ep [IUnsetVariable p] c)"
    by (simp add: labelFree_iff)
  then show ?case using Cons.IH labelFree_trans by fastforce
qed

lemma compilePatternBind_labelFree:
  "compilePatternBind p c = Inr c' \<Longrightarrow> labelFree c c'"
  by (cases p)
    (auto simp: thenE_eq_Inr labelFree_refl bindTupleComponents_labelFree
      dest: bindStructureFields_labelFree split: if_splits)

lemma compilePatternUnbind_labelFree:
  "compilePatternUnbind p c = Inr c' \<Longrightarrow> labelFree c c'"
  by (cases p) (auto simp: labelFree_refl unbindParameters_labelFree)

text \<open>The first loop of a switch: one fresh label for each branch, all of them jumped to.\<close>

lemma compileBranchChecks_labels:
  "compileBranchChecks i18n bs acc c = Inr (ls, c') \<Longrightarrow>
   (\<exists>out. code c' = code c @ out \<and> labelsOf out = [] \<and>
      set (targetsOf out) = labelName ` {nextLabel c ..< nextLabel c + length bs}) \<and>
   ls = acc @ map labelName [nextLabel c ..< nextLabel c + length bs] \<and>
   nextLabel c' = nextLabel c + length bs \<and> nextVariable c' = nextVariable c \<and>
   symtable c' = symtable c \<and> primitives c' = primitives c"
proof (induction bs arbitrary: acc c)
  case Nil
  then show ?case by simp
next
  case (Cons b bs)
  obtain bsp bep p body where b: "b = SwitchBranch bsp bep p body" by (cases b)
  from Cons.prems obtain c1 where
    1: "compilePatternCheck i18n p (labelName (nextLabel c)) (snd (freshLabel c)) = Inr c1" and
    2: "compileBranchChecks i18n bs (acc @ [labelName (nextLabel c)]) c1 = Inr (ls, c')"
    by (auto simp: b thenE_eq_Inr split_beta labelName_def)
  note f1 = compilePatternCheck_jumps [OF 1]
  note f2 = Cons.IH [OF 2]
  from f1 f2 obtain o1 o2 where
    o: "code c1 = code c @ o1" "labelsOf o1 = []" "set (targetsOf o1) = {labelName (nextLabel c)}"
       "code c' = code c1 @ o2" "labelsOf o2 = []"
       "set (targetsOf o2) = labelName ` {nextLabel c1 ..< nextLabel c1 + length bs}"
    by auto
  have n1: "nextLabel c1 = Suc (nextLabel c)" using f1 by simp
  have iv: "{nextLabel c ..< nextLabel c + length (b # bs)} =
      insert (nextLabel c) {Suc (nextLabel c) ..< Suc (nextLabel c) + length bs}"
    by auto
  have up: "[nextLabel c ..< nextLabel c + length (b # bs)] =
      nextLabel c # [Suc (nextLabel c) ..< Suc (nextLabel c) + length bs]"
    by (subst upt_rec) simp
  show ?case
    using f1 f2 o n1 unfolding iv up
    by (intro conjI exI [of _ "o1 @ o2"]) simp_all
qed

subsection \<open>The steps of each statement\<close>

lemma run_If_None:
  assumes "compileStatement i18n (StmtIf sp ep cond thn None) c = Inr c'"
  obtains c1 c2 c3 where
    "compileExpression cond c = Inr c1"
    "continues c1
       [Instruction (ITypeCheck (TypeStructure (i18n ''TYPE:Bool'') []))
          (exprStartPos cond) (exprEndPos cond),
        Instruction (IJumpIfFalse (labelName (nextLabel c1))) sp ep] 1 0 c2"
    "compileStatement i18n thn c2 = Inr c3"
    "continues c3 [Instruction (ILabel (labelName (nextLabel c1))) sp ep] 0 0 c'"
proof -
  from assms obtain c1 c2 c3 where
    "compileExpression cond c = Inr c1"
    "c2 = produce sp ep (IJumpIfFalse (fst (freshLabel (produce (exprStartPos cond) (exprEndPos cond)
                 (ITypeCheck (TypeStructure (i18n ''TYPE:Bool'') [])) c1))))
            (snd (freshLabel (produce (exprStartPos cond) (exprEndPos cond)
                 (ITypeCheck (TypeStructure (i18n ''TYPE:Bool'') [])) c1)))"
    "compileStatement i18n thn c2 = Inr c3"
    "c' = produce sp ep (ILabel (labelName (nextLabel c1))) c3"
    by (auto simp: thenE_eq_Inr Let_def split_beta labelName_def)
  then show thesis
    by (intro that [of c1 c2 c3]) (simp_all add: labelName_def continues_def)
qed

lemma run_If_Some:
  assumes "compileStatement i18n (StmtIf sp ep cond thn (Some els)) c = Inr c'"
  obtains c1 c2 c3 c4 c5 where
    "compileExpression cond c = Inr c1"
    "continues c1
       [Instruction (ITypeCheck (TypeStructure (i18n ''TYPE:Bool'') []))
          (exprStartPos cond) (exprEndPos cond),
        Instruction (IJumpIfFalse (labelName (nextLabel c1))) sp ep] 1 0 c2"
    "compileStatement i18n thn c2 = Inr c3"
    "continues c3
       (map (\<lambda>i. Instruction i sp ep)
          [IJump (labelName (nextLabel c3)), ILabel (labelName (nextLabel c1))]) 1 0 c4"
    "compileStatement i18n els c4 = Inr c5"
    "continues c5 [Instruction (ILabel (labelName (nextLabel c3))) sp ep] 0 0 c'"
proof -
  from assms obtain c1 c2 c3 c4 c5 where
    "compileExpression cond c = Inr c1"
    "c2 = produce sp ep (IJumpIfFalse (fst (freshLabel (produce (exprStartPos cond) (exprEndPos cond)
                 (ITypeCheck (TypeStructure (i18n ''TYPE:Bool'') [])) c1))))
            (snd (freshLabel (produce (exprStartPos cond) (exprEndPos cond)
                 (ITypeCheck (TypeStructure (i18n ''TYPE:Bool'') [])) c1)))"
    "compileStatement i18n thn c2 = Inr c3"
    "c4 = produceList sp ep [IJump (fst (freshLabel c3)), ILabel (labelName (nextLabel c1))]
            (snd (freshLabel c3))"
    "compileStatement i18n els c4 = Inr c5"
    "c' = produce sp ep (ILabel (labelName (nextLabel c3))) c5"
    by (auto simp: thenE_eq_Inr Let_def split_beta labelName_def)
  then show thesis
    by (intro that [of c1 c2 c3 c4 c5]) (simp_all add: labelName_def continues_def)
qed

lemma run_Repeat:
  assumes "compileStatement i18n (StmtRepeat sp ep timesExpr body) c = Inr c'"
  obtains c1 c2 c3 where
    "compileExpression timesExpr c = Inr c1"
    "continues c1
       (Instruction (ITypeCheck TypeInteger) (exprStartPos timesExpr) (exprEndPos timesExpr) #
        map (\<lambda>i. Instruction i sp ep)
          [ILabel (labelName (nextLabel c1)), IDup, IPushInteger (Number 0),
           IPrimitiveCall ''>'' 2, IJumpIfFalse (labelName (nextLabel c1 + 1))]) 2 0 c2"
    "compileStatement i18n body c2 = Inr c3"
    "continues c3
       (map (\<lambda>i. Instruction i sp ep)
          [IPushInteger (Number 1), IPrimitiveCall ''-'' 2, IJump (labelName (nextLabel c1)),
           ILabel (labelName (nextLabel c1 + 1)), IPop]) 0 0 c'"
proof -
  from assms obtain c1 c2 c3 where
    "compileExpression timesExpr c = Inr c1"
    "c2 = produceList sp ep
            [ILabel (labelName (nextLabel c1)), IDup, IPushInteger (Number 0),
             IPrimitiveCall ''>'' 2, IJumpIfFalse (labelName (nextLabel c1 + 1))]
            (snd (freshLabel (snd (freshLabel
               (produce (exprStartPos timesExpr) (exprEndPos timesExpr)
                  (ITypeCheck TypeInteger) c1)))))"
    "compileStatement i18n body c2 = Inr c3"
    "c' = produceList sp ep
            [IPushInteger (Number 1), IPrimitiveCall ''-'' 2, IJump (labelName (nextLabel c1)),
             ILabel (labelName (nextLabel c1 + 1)), IPop] c3"
    by (auto simp: thenE_eq_Inr Let_def split_beta labelName_def)
  then show thesis
    by (intro that [of c1 c2 c3]) (simp_all add: labelName_def continues_def)
qed

lemma run_Foreach:
  assumes "compileStatement i18n (StmtForeach sp ep index rangeExpr body) c = Inr c'"
  obtains c0 c1 c2 c3 where
    "continues c [] 2 3 c0"
    "compileExpression rangeExpr c0 = Inr c1"
    "continues c1
       (map (\<lambda>i. Instruction i (exprStartPos rangeExpr) (exprEndPos rangeExpr))
          [ITypeCheck (TypeList TypeAny),
           ISetVariable (variableName (nextVariable c)),
           IPushVariable (variableName (nextVariable c)),
           IPrimitiveCall ''_unsafeListLength'' 1,
           ISetVariable (variableName (nextVariable c + 2))] @
        map (\<lambda>i. Instruction i sp ep)
          [IPushInteger (Number 0),
           ISetVariable (variableName (nextVariable c + 1)),
           ILabel (labelName (nextLabel c)),
           IPushVariable (variableName (nextVariable c + 1)),
           IPushVariable (variableName (nextVariable c + 2)),
           IPrimitiveCall ''<'' 2,
           IJumpIfFalse (labelName (nextLabel c + 1)),
           IPushVariable (variableName (nextVariable c)),
           IPushVariable (variableName (nextVariable c + 1)),
           IPrimitiveCall ''_unsafeListNth'' 2,
           ISetVariable index]) 0 0 c2"
    "compileStatement i18n body c2 = Inr c3"
    "continues c3
       (map (\<lambda>i. Instruction i sp ep)
          [IPushVariable (variableName (nextVariable c + 1)),
           IPushInteger (Number 1),
           IPrimitiveCall ''+'' 2,
           ISetVariable (variableName (nextVariable c + 1)),
           IJump (labelName (nextLabel c)),
           ILabel (labelName (nextLabel c + 1)),
           IUnsetVariable (variableName (nextVariable c)),
           IUnsetVariable (variableName (nextVariable c + 2)),
           IUnsetVariable (variableName (nextVariable c + 1)),
           IUnsetVariable index]) 0 0 c'"
proof -
  define c0 where
    "c0 = snd (freshVariable (snd (freshVariable (snd (freshVariable
            (snd (freshLabel (snd (freshLabel c)))))))))"
  have c0: "continues c [] 2 3 c0"
    by (simp add: c0_def continues_def)
  from assms obtain c1 c2 c3 where
    "compileExpression rangeExpr c0 = Inr c1"
    "c2 = produceList sp ep
            [IPushInteger (Number 0),
             ISetVariable (variableName (nextVariable c + 1)),
             ILabel (labelName (nextLabel c)),
             IPushVariable (variableName (nextVariable c + 1)),
             IPushVariable (variableName (nextVariable c + 2)),
             IPrimitiveCall ''<'' 2,
             IJumpIfFalse (labelName (nextLabel c + 1)),
             IPushVariable (variableName (nextVariable c)),
             IPushVariable (variableName (nextVariable c + 1)),
             IPrimitiveCall ''_unsafeListNth'' 2,
             ISetVariable index]
            (produceList (exprStartPos rangeExpr) (exprEndPos rangeExpr)
               [ITypeCheck (TypeList TypeAny),
                ISetVariable (variableName (nextVariable c)),
                IPushVariable (variableName (nextVariable c)),
                IPrimitiveCall ''_unsafeListLength'' 1,
                ISetVariable (variableName (nextVariable c + 2))] c1)"
    "compileStatement i18n body c2 = Inr c3"
    "c' = produceList sp ep
          [IPushVariable (variableName (nextVariable c + 1)),
           IPushInteger (Number 1),
           IPrimitiveCall ''+'' 2,
           ISetVariable (variableName (nextVariable c + 1)),
           IJump (labelName (nextLabel c)),
           ILabel (labelName (nextLabel c + 1)),
           IUnsetVariable (variableName (nextVariable c)),
           IUnsetVariable (variableName (nextVariable c + 2)),
           IUnsetVariable (variableName (nextVariable c + 1)),
           IUnsetVariable index] c3"
    by (auto simp: thenE_eq_Inr Let_def split_beta labelName_def variableName_def c0_def)
  with c0 show thesis
    by (intro that [of c0 c1 c2 c3]) (simp_all add: continues_def)
qed

lemma run_While:
  assumes "compileStatement i18n (StmtWhile sp ep cond body) c = Inr c'"
  obtains c0 c1 c2 c3 where
    "continues c [Instruction (ILabel (labelName (nextLabel c))) sp ep] 2 0 c0"
    "compileExpression cond c0 = Inr c1"
    "continues c1
       (map (\<lambda>i. Instruction i sp ep)
          [ITypeCheck (TypeStructure (i18n ''TYPE:Bool'') []),
           IJumpIfFalse (labelName (nextLabel c + 1))]) 0 0 c2"
    "compileStatement i18n body c2 = Inr c3"
    "continues c3
       (map (\<lambda>i. Instruction i sp ep)
          [IJump (labelName (nextLabel c)), ILabel (labelName (nextLabel c + 1))]) 0 0 c'"
proof -
  define c0 where
    "c0 = produce sp ep (ILabel (labelName (nextLabel c))) (snd (freshLabel (snd (freshLabel c))))"
  have c0: "continues c [Instruction (ILabel (labelName (nextLabel c))) sp ep] 2 0 c0"
    by (simp add: c0_def continues_def)
  from assms obtain c1 c2 c3 where
    "compileExpression cond c0 = Inr c1"
    "c2 = produceList sp ep
            [ITypeCheck (TypeStructure (i18n ''TYPE:Bool'') []),
             IJumpIfFalse (labelName (nextLabel c + 1))] c1"
    "compileStatement i18n body c2 = Inr c3"
    "c' = produceList sp ep
            [IJump (labelName (nextLabel c)), ILabel (labelName (nextLabel c + 1))] c3"
    by (auto simp: thenE_eq_Inr Let_def split_beta labelName_def c0_def)
  with c0 show thesis
    by (intro that [of c0 c1 c2 c3]) (simp_all add: continues_def)
qed

lemma run_Switch:
  assumes "compileStatement i18n (StmtSwitch sp ep subject branches) c = Inr c'"
  obtains c1 branchLabels c2 c3 c4 where
    "compileExpression subject c = Inr c1"
    "compileBranchChecks i18n branches [] c1 = Inr (branchLabels, c2)"
    "continues c2
       (map (\<lambda>i. Instruction i sp ep)
          [IPushString (i18n ''errmsg:switch-does-not-match''),
           IPrimitiveCall ''_FAIL'' 1]) 1 0 c3"
    "compileBranches i18n branches branchLabels (labelName (nextLabel c2)) c3 = Inr c4"
    "continues c4 [Instruction (ILabel (labelName (nextLabel c2))) sp ep] 0 0 c'"
proof -
  from assms obtain c1 branchLabels c2 c3 c4 where
    "compileExpression subject c = Inr c1"
    "compileBranchChecks i18n branches [] c1 = Inr (branchLabels, c2)"
    "c3 = snd (freshLabel (produceList sp ep
             [IPushString (i18n ''errmsg:switch-does-not-match''),
              IPrimitiveCall ''_FAIL'' 1] c2))"
    "compileBranches i18n branches branchLabels (labelName (nextLabel c2)) c3 = Inr c4"
    "c' = produce sp ep (ILabel (labelName (nextLabel c2))) c4"
    by (auto simp: thenE_eq_Inr Let_def split_beta labelName_def)
  then show thesis
    by (intro that [of c1 branchLabels c2 c3 c4]) (simp_all add: continues_def)
qed

lemma run_AssignVariable:
  assumes "compileStatement i18n (StmtAssignVariable sp ep variable val) c = Inr c'"
  obtains c1 where
    "compileExpression val c = Inr c1"
    "continues c1 [Instruction (ISetVariable variable) sp ep] 0 0 c'"
  using assms by (auto simp: thenE_eq_Inr continues_def)

lemma run_AssignTuple:
  assumes "compileStatement i18n (StmtAssignTuple sp ep variables val) c = Inr c'"
  obtains c1 c2 where
    "compileExpression val c = Inr c1"
    "continues c1
       [Instruction (ITypeCheck (TypeTuple (replicate (length variables) TypeAny))) sp ep] 0 0 c2"
    "continues (assignTupleComponents sp ep 0 variables c2) [Instruction IPop sp ep] 0 0 c'"
proof -
  from assms obtain c1 c2 where
    "compileExpression val c = Inr c1"
    "c2 = produce sp ep (ITypeCheck (TypeTuple (replicate (length variables) TypeAny))) c1"
    "c' = produce sp ep IPop (assignTupleComponents sp ep 0 variables c2)"
    by (auto simp: thenE_eq_Inr Let_def)
  then show thesis
    by (intro that [of c1 c2]) (simp_all add: continues_def)
qed

lemma run_ProcedureCall:
  assumes "compileStatement i18n (StmtProcedureCall sp ep procedureName args) c = Inr c'"
  obtains c1 where
    "compileExpressions args c = Inr c1"
    "isProcedure (primitives c1) procedureName"
    "continues c1 [Instruction (IPrimitiveCall procedureName (length args)) sp ep] 0 0 c'"
  using assms by (auto simp: thenE_eq_Inr continues_def split: if_splits)

lemma run_Branches_Cons:
  assumes "compileBranches i18n (SwitchBranch bsp bep pattern body # branches)
             (label # branchLabels) labelEnd c = Inr c'"
  obtains c1 c2 c3 c4 c5 c6 where
    "continues c [Instruction (ILabel label) bsp bep] 0 0 c1"
    "compilePatternBind pattern c1 = Inr c2"
    "continues c2 [Instruction IPop bsp bep] 0 0 c3"
    "compileStatement i18n body c3 = Inr c4"
    "compilePatternUnbind pattern c4 = Inr c5"
    "continues c5 [Instruction (IJump labelEnd) bsp bep] 0 0 c6"
    "compileBranches i18n branches branchLabels labelEnd c6 = Inr c'"
proof -
  from assms obtain c2 c4 c5 where
    "compilePatternBind pattern (produce bsp bep (ILabel label) c) = Inr c2"
    "compileStatement i18n body (produce bsp bep IPop c2) = Inr c4"
    "compilePatternUnbind pattern c4 = Inr c5"
    "compileBranches i18n branches branchLabels labelEnd (produce bsp bep (IJump labelEnd) c5) = Inr c'"
    by (auto simp: thenE_eq_Inr Let_def)
  then show thesis
    by (intro that [of "produce bsp bep (ILabel label) c" c2 "produce bsp bep IPop c2" c4 c5
          "produce bsp bep (IJump labelEnd) c5"]) (simp_all add: continues_def)
qed

subsection \<open>Every statement emits its own labels, once, and jumps only to them\<close>

lemmas declares_intros =
  declares_Label declares_Jump declares_JumpIfFalse declares_Nil
  declares_append declares_Cons declares_Cons_append

lemma wl_If_None:
  assumes "compileStatement i18n (StmtIf sp ep cond thn None) c = Inr c'"
    and IH: "\<And>c c'. compileStatement i18n thn c = Inr c' \<Longrightarrow> wellLabelled c c'"
  shows "wellLabelled c c'"
proof -
  from assms(1) obtain c1 c2 c3 where r:
    "compileExpression cond c = Inr c1"
    "continues c1
       [Instruction (ITypeCheck (TypeStructure (i18n ''TYPE:Bool'') []))
          (exprStartPos cond) (exprEndPos cond),
        Instruction (IJumpIfFalse (labelName (nextLabel c1))) sp ep] 1 0 c2"
    "compileStatement i18n thn c2 = Inr c3"
    "continues c3 [Instruction (ILabel (labelName (nextLabel c1))) sp ep] 0 0 c'"
    by (rule run_If_None)
  note e = compileExpression_labelFree [OF r(1)]
  note t = IH [OF r(3)]
  from e t r(2,4) show ?thesis
    apply (clarsimp simp: labelFree_iff wellLabelled_iff continues_def)
    apply (rule declares_weaken)
      apply (rule declares_intros | assumption | (rule declares_none; assumption)
        | (rule declares_plain; simp)
        | (rule declares_Cons_any,
            (rule declares_Label declares_Jump declares_JumpIfFalse
              | (rule declares_plain; simp))))+
     apply auto
    done
qed

lemma wl_If_Some:
  assumes "compileStatement i18n (StmtIf sp ep cond thn (Some els)) c = Inr c'"
    and IH1: "\<And>c c'. compileStatement i18n thn c = Inr c' \<Longrightarrow> wellLabelled c c'"
    and IH2: "\<And>c c'. compileStatement i18n els c = Inr c' \<Longrightarrow> wellLabelled c c'"
  shows "wellLabelled c c'"
proof -
  from assms(1) obtain c1 c2 c3 c4 c5 where r:
    "compileExpression cond c = Inr c1"
    "continues c1
       [Instruction (ITypeCheck (TypeStructure (i18n ''TYPE:Bool'') []))
          (exprStartPos cond) (exprEndPos cond),
        Instruction (IJumpIfFalse (labelName (nextLabel c1))) sp ep] 1 0 c2"
    "compileStatement i18n thn c2 = Inr c3"
    "continues c3
       (map (\<lambda>i. Instruction i sp ep)
          [IJump (labelName (nextLabel c3)), ILabel (labelName (nextLabel c1))]) 1 0 c4"
    "compileStatement i18n els c4 = Inr c5"
    "continues c5 [Instruction (ILabel (labelName (nextLabel c3))) sp ep] 0 0 c'"
    by (rule run_If_Some)
  note e = compileExpression_labelFree [OF r(1)]
  note t = IH1 [OF r(3)]
  note f = IH2 [OF r(5)]
  from e t f r(2,4,6) show ?thesis
    apply (clarsimp simp: labelFree_iff wellLabelled_iff continues_def)
    apply (rule declares_weaken)
      apply (rule declares_intros | assumption | (rule declares_none; assumption)
        | (rule declares_plain; simp)
        | (rule declares_Cons_any,
            (rule declares_Label declares_Jump declares_JumpIfFalse
              | (rule declares_plain; simp))))+
     apply auto
    done
qed


lemma wl_Repeat:
  assumes "compileStatement i18n (StmtRepeat sp ep timesExpr body) c = Inr c'"
    and IH: "\<And>c c'. compileStatement i18n body c = Inr c' \<Longrightarrow> wellLabelled c c'"
  shows "wellLabelled c c'"
proof -
  from assms(1) obtain c1 c2 c3 where r:
    "compileExpression timesExpr c = Inr c1"
    "continues c1
       (Instruction (ITypeCheck TypeInteger) (exprStartPos timesExpr) (exprEndPos timesExpr) #
        map (\<lambda>i. Instruction i sp ep)
          [ILabel (labelName (nextLabel c1)), IDup, IPushInteger (Number 0),
           IPrimitiveCall ''>'' 2, IJumpIfFalse (labelName (nextLabel c1 + 1))]) 2 0 c2"
    "compileStatement i18n body c2 = Inr c3"
    "continues c3
       (map (\<lambda>i. Instruction i sp ep)
          [IPushInteger (Number 1), IPrimitiveCall ''-'' 2, IJump (labelName (nextLabel c1)),
           ILabel (labelName (nextLabel c1 + 1)), IPop]) 0 0 c'"
    by (rule run_Repeat)
  note e = compileExpression_labelFree [OF r(1)]
  note b = IH [OF r(3)]
  from e b r(2,4) show ?thesis
    apply (clarsimp simp: labelFree_iff wellLabelled_iff continues_def)
    apply (rule declares_weaken)
      apply (rule declares_intros | assumption | (rule declares_none; assumption)
        | (rule declares_plain; simp)
        | (rule declares_Cons_any,
            (rule declares_Label declares_Jump declares_JumpIfFalse
              | (rule declares_plain; simp))))+
     apply auto
    done
qed

lemma wl_Foreach:
  assumes "compileStatement i18n (StmtForeach sp ep index rangeExpr body) c = Inr c'"
    and IH: "\<And>c c'. compileStatement i18n body c = Inr c' \<Longrightarrow> wellLabelled c c'"
  shows "wellLabelled c c'"
proof -
  from assms(1) obtain c0 c1 c2 c3 where r:
    "continues c [] 2 3 c0"
    "compileExpression rangeExpr c0 = Inr c1"
    "continues c1
       (map (\<lambda>i. Instruction i (exprStartPos rangeExpr) (exprEndPos rangeExpr))
          [ITypeCheck (TypeList TypeAny),
           ISetVariable (variableName (nextVariable c)),
           IPushVariable (variableName (nextVariable c)),
           IPrimitiveCall ''_unsafeListLength'' 1,
           ISetVariable (variableName (nextVariable c + 2))] @
        map (\<lambda>i. Instruction i sp ep)
          [IPushInteger (Number 0),
           ISetVariable (variableName (nextVariable c + 1)),
           ILabel (labelName (nextLabel c)),
           IPushVariable (variableName (nextVariable c + 1)),
           IPushVariable (variableName (nextVariable c + 2)),
           IPrimitiveCall ''<'' 2,
           IJumpIfFalse (labelName (nextLabel c + 1)),
           IPushVariable (variableName (nextVariable c)),
           IPushVariable (variableName (nextVariable c + 1)),
           IPrimitiveCall ''_unsafeListNth'' 2,
           ISetVariable index]) 0 0 c2"
    "compileStatement i18n body c2 = Inr c3"
    "continues c3
       (map (\<lambda>i. Instruction i sp ep)
          [IPushVariable (variableName (nextVariable c + 1)),
           IPushInteger (Number 1),
           IPrimitiveCall ''+'' 2,
           ISetVariable (variableName (nextVariable c + 1)),
           IJump (labelName (nextLabel c)),
           ILabel (labelName (nextLabel c + 1)),
           IUnsetVariable (variableName (nextVariable c)),
           IUnsetVariable (variableName (nextVariable c + 2)),
           IUnsetVariable (variableName (nextVariable c + 1)),
           IUnsetVariable index]) 0 0 c'"
    by (rule run_Foreach)
  note e = compileExpression_labelFree [OF r(2)]
  note b = IH [OF r(4)]
  from e b r(1,3,5) show ?thesis
    apply (clarsimp simp: labelFree_iff wellLabelled_iff continues_def)
    apply (rule declares_weaken)
      apply (rule declares_intros | assumption | (rule declares_none; assumption)
        | (rule declares_plain; simp)
        | (rule declares_Cons_any,
            (rule declares_Label declares_Jump declares_JumpIfFalse
              | (rule declares_plain; simp))))+
     apply auto
    done
qed

lemma wl_While:
  assumes "compileStatement i18n (StmtWhile sp ep cond body) c = Inr c'"
    and IH: "\<And>c c'. compileStatement i18n body c = Inr c' \<Longrightarrow> wellLabelled c c'"
  shows "wellLabelled c c'"
proof -
  from assms(1) obtain c0 c1 c2 c3 where r:
    "continues c [Instruction (ILabel (labelName (nextLabel c))) sp ep] 2 0 c0"
    "compileExpression cond c0 = Inr c1"
    "continues c1
       (map (\<lambda>i. Instruction i sp ep)
          [ITypeCheck (TypeStructure (i18n ''TYPE:Bool'') []),
           IJumpIfFalse (labelName (nextLabel c + 1))]) 0 0 c2"
    "compileStatement i18n body c2 = Inr c3"
    "continues c3
       (map (\<lambda>i. Instruction i sp ep)
          [IJump (labelName (nextLabel c)), ILabel (labelName (nextLabel c + 1))]) 0 0 c'"
    by (rule run_While)
  note e = compileExpression_labelFree [OF r(2)]
  note b = IH [OF r(4)]
  from e b r(1,3,5) show ?thesis
    apply (clarsimp simp: labelFree_iff wellLabelled_iff continues_def)
    apply (rule declares_weaken)
      apply (rule declares_intros | assumption | (rule declares_none; assumption)
        | (rule declares_plain; simp)
        | (rule declares_Cons_any,
            (rule declares_Label declares_Jump declares_JumpIfFalse
              | (rule declares_plain; simp))))+
     apply auto
    done
qed

lemma wl_AssignVariable:
  assumes "compileStatement i18n (StmtAssignVariable sp ep variable val) c = Inr c'"
  shows "wellLabelled c c'"
proof -
  from assms obtain c1 where r:
    "compileExpression val c = Inr c1"
    "continues c1 [Instruction (ISetVariable variable) sp ep] 0 0 c'"
    by (rule run_AssignVariable)
  note e = compileExpression_labelFree [OF r(1)]
  from e r(2) have "labelFree c c'"
    by (auto simp: labelFree_iff continues_def)
  then show ?thesis by (rule labelFree_wellLabelled)
qed

lemma wl_AssignTuple:
  assumes "compileStatement i18n (StmtAssignTuple sp ep variables val) c = Inr c'"
  shows "wellLabelled c c'"
proof -
  from assms obtain c1 c2 where r:
    "compileExpression val c = Inr c1"
    "continues c1
       [Instruction (ITypeCheck (TypeTuple (replicate (length variables) TypeAny))) sp ep] 0 0 c2"
    "continues (assignTupleComponents sp ep 0 variables c2) [Instruction IPop sp ep] 0 0 c'"
    by (rule run_AssignTuple)
  note e = compileExpression_labelFree [OF r(1)]
  note a = assignTupleComponents_labelFree [of c2 sp ep 0 variables]
  from e a r(2,3) have "labelFree c c'"
    by (auto simp: labelFree_iff continues_def)
  then show ?thesis by (rule labelFree_wellLabelled)
qed

lemma wl_ProcedureCall:
  assumes "compileStatement i18n (StmtProcedureCall sp ep procedureName args) c = Inr c'"
  shows "wellLabelled c c'"
proof -
  from assms obtain c1 where r:
    "compileExpressions args c = Inr c1"
    "continues c1 [Instruction (IPrimitiveCall procedureName (length args)) sp ep] 0 0 c'"
    by (rule run_ProcedureCall)
  note e = compileExpressions_labelFree [OF r(1)]
  from e r(2) have "labelFree c c'"
    by (auto simp: labelFree_iff continues_def)
  then show ?thesis by (rule labelFree_wellLabelled)
qed

lemma declares_targets:
  "labelsOf out = [] \<Longrightarrow> set (targetsOf out) = labelName ` T \<Longrightarrow> declares out {} T"
  by (simp add: declares_def)

lemma wl_Branches:
  assumes bodies: "\<And>bsp bep p body c c'. SwitchBranch bsp bep p body \<in> set bs \<Longrightarrow>
      compileStatement i18n body c = Inr c' \<Longrightarrow> wellLabelled c c'"
    and run: "compileBranches i18n bs (map labelName ks) (labelName e) c = Inr c'"
    and len: "length ks = length bs"
    and ks: "distinct ks" "\<forall>k \<in> set ks. k < nextLabel c"
  shows "(\<exists>out. code c' = code c @ out \<and>
            declares out (set ks \<union> {nextLabel c ..< nextLabel c'})
              (insert e (set ks \<union> {nextLabel c ..< nextLabel c'}))) \<and>
         nextLabel c \<le> nextLabel c' \<and> nextVariable c \<le> nextVariable c' \<and>
         symtable c' = symtable c \<and> primitives c' = primitives c"
  using bodies run len ks
proof (induction bs arbitrary: ks c)
  case Nil
  then show ?case by (simp add: declares_def)
next
  case (Cons b bs)
  obtain bsp bep p body where b: "b = SwitchBranch bsp bep p body" by (cases b)
  from Cons.prems(3) obtain k ks' where ks: "ks = k # ks'" by (cases ks) auto
  have run': "compileBranches i18n (SwitchBranch bsp bep p body # bs)
      (labelName k # map labelName ks') (labelName e) c = Inr c'"
    using Cons.prems(2) by (simp add: b ks)
  from run' obtain c1 c2 c3 c4 c5 c6 where r:
    "continues c [Instruction (ILabel (labelName k)) bsp bep] 0 0 c1"
    "compilePatternBind p c1 = Inr c2"
    "continues c2 [Instruction IPop bsp bep] 0 0 c3"
    "compileStatement i18n body c3 = Inr c4"
    "compilePatternUnbind p c4 = Inr c5"
    "continues c5 [Instruction (IJump (labelName e)) bsp bep] 0 0 c6"
    "compileBranches i18n bs (map labelName ks') (labelName e) c6 = Inr c'"
    by (rule run_Branches_Cons)
  note pb = compilePatternBind_labelFree [OF r(2)]
  note pu = compilePatternUnbind_labelFree [OF r(5)]
  have wb: "wellLabelled c3 c4"
    using Cons.prems(1) [of bsp bep p body c3 c4] r(4) b by simp
  have n6: "nextLabel c \<le> nextLabel c6"
    using pb pu wb r(1,3,6) by (auto simp: labelFree_iff wellLabelled_iff continues_def)
  have rest: "(\<exists>out. code c' = code c6 @ out \<and>
            declares out (set ks' \<union> {nextLabel c6 ..< nextLabel c'})
              (insert e (set ks' \<union> {nextLabel c6 ..< nextLabel c'}))) \<and>
         nextLabel c6 \<le> nextLabel c' \<and> nextVariable c6 \<le> nextVariable c' \<and>
         symtable c' = symtable c6 \<and> primitives c' = primitives c6"
  proof (rule Cons.IH [OF _ r(7)])
    fix bsp bep p body c c'
    assume "SwitchBranch bsp bep p body \<in> set bs" "compileStatement i18n body c = Inr c'"
    then show "wellLabelled c c'" using Cons.prems(1) [of bsp bep p body c c'] by simp
  next
    show "length ks' = length bs" using Cons.prems(3) ks by simp
    show "distinct ks'" using Cons.prems(4) ks by simp
    show "\<forall>k\<in>set ks'. k < nextLabel c6" using Cons.prems(5) ks n6 by auto
  qed
  have kk: "k < nextLabel c" "k \<notin> set ks'" "\<forall>j \<in> set ks'. j < nextLabel c"
    using Cons.prems(4,5) ks by auto
  from pb pu wb rest kk r(1,3,6) show ?case unfolding ks
    apply (clarsimp simp: labelFree_iff wellLabelled_iff continues_def)
    apply (rule declares_weaken)
      apply (rule declares_intros | assumption | (rule declares_none; assumption)
        | (rule declares_plain; simp)
        | (rule declares_Cons_any,
            (rule declares_Label declares_Jump declares_JumpIfFalse
              | (rule declares_plain; simp))))+
     apply auto
    done
qed

lemma wl_Switch:
  assumes "compileStatement i18n (StmtSwitch sp ep subject branches) c = Inr c'"
    and IH: "\<And>bsp bep p body c c'. SwitchBranch bsp bep p body \<in> set branches \<Longrightarrow>
      compileStatement i18n body c = Inr c' \<Longrightarrow> wellLabelled c c'"
  shows "wellLabelled c c'"
proof -
  from assms(1) obtain c1 branchLabels c2 c3 c4 where r:
    "compileExpression subject c = Inr c1"
    "compileBranchChecks i18n branches [] c1 = Inr (branchLabels, c2)"
    "continues c2
       (map (\<lambda>i. Instruction i sp ep)
          [IPushString (i18n ''errmsg:switch-does-not-match''),
           IPrimitiveCall ''_FAIL'' 1]) 1 0 c3"
    "compileBranches i18n branches branchLabels (labelName (nextLabel c2)) c3 = Inr c4"
    "continues c4 [Instruction (ILabel (labelName (nextLabel c2))) sp ep] 0 0 c'"
    by (rule run_Switch)
  note e = compileExpression_labelFree [OF r(1)]
  note ch = compileBranchChecks_labels [OF r(2)]
  define ks where "ks = [nextLabel c1 ..< nextLabel c1 + length branches]"
  have bl: "branchLabels = map labelName ks" using ch by (simp add: ks_def)
  from ch obtain oc where oc: "code c2 = code c1 @ oc"
    "declares oc {} {nextLabel c1 ..< nextLabel c1 + length branches}"
    by (auto intro: declares_targets)
  have n3: "nextLabel c3 = nextLabel c1 + length branches + 1"
    using ch r(3) by (simp add: continues_def)
  have br: "(\<exists>out. code c4 = code c3 @ out \<and>
            declares out (set ks \<union> {nextLabel c3 ..< nextLabel c4})
              (insert (nextLabel c2) (set ks \<union> {nextLabel c3 ..< nextLabel c4}))) \<and>
         nextLabel c3 \<le> nextLabel c4 \<and> nextVariable c3 \<le> nextVariable c4 \<and>
         symtable c4 = symtable c3 \<and> primitives c4 = primitives c3"
    by (rule wl_Branches [OF IH r(4) [unfolded bl]]) (auto simp: ks_def n3)
  from e ch oc br r(3,5) n3 show ?thesis
    apply (clarsimp simp: labelFree_iff wellLabelled_iff continues_def ks_def)
    apply (rule declares_weaken)
      apply (rule declares_intros | assumption | (rule declares_none; assumption)
        | (rule declares_plain; simp)
        | (rule declares_Cons_any,
            (rule declares_Label declares_Jump declares_JumpIfFalse
              | (rule declares_plain; simp))))+
     apply auto
    done
qed

lemma compileStatement_wellLabelled_aux:
  fixes s :: "'p stmt" and b :: "'p branch"
  shows "\<And>c c'. compileStatement i18n s c = Inr c' \<Longrightarrow> wellLabelled c c'"
    and "\<And>bsp bep p body c c'. b = SwitchBranch bsp bep p body \<Longrightarrow>
      compileStatement i18n body c = Inr c' \<Longrightarrow> wellLabelled c c'"
proof (induction s and b)
  case (StmtBlock sp ep ss)
  from StmtBlock.prems have run: "compileStatements i18n ss c = Inr c'" by simp
  show ?case
  proof (rule compileStatements_lift [where R = wellLabelled,
          OF wellLabelled_refl wellLabelled_trans _ run])
    fix s c c' assume "s \<in> set ss" "compileStatement i18n s c = Inr c'"
    then show "wellLabelled c c'" by (rule StmtBlock.IH)
  qed
next
  case (StmtReturn sp ep e)
  then show ?case
    by (auto intro: labelFree_wellLabelled compileExpression_labelFree)
next
  case (StmtIf sp ep cond thn els)
  show ?case
  proof (cases els)
    case None
    show ?thesis
      by (rule wl_If_None [OF StmtIf.prems [unfolded None] StmtIf.IH(1)])
  next
    case (Some e)
    show ?thesis
      by (rule wl_If_Some [OF StmtIf.prems [unfolded Some] StmtIf.IH(1) StmtIf.IH(2)])
        (simp_all add: Some)
  qed
next
  case (StmtRepeat sp ep t body)
  show ?case by (rule wl_Repeat [OF StmtRepeat.prems StmtRepeat.IH])
next
  case (StmtForeach sp ep index r body)
  show ?case by (rule wl_Foreach [OF StmtForeach.prems StmtForeach.IH])
next
  case (StmtWhile sp ep cond body)
  show ?case by (rule wl_While [OF StmtWhile.prems StmtWhile.IH])
next
  case (StmtSwitch sp ep subject branches)
  show ?case
  proof (rule wl_Switch [OF StmtSwitch.prems])
    fix bsp bep p body c c'
    assume "SwitchBranch bsp bep p body \<in> set branches" "compileStatement i18n body c = Inr c'"
    then show "wellLabelled c c'"
      using StmtSwitch.IH [of "SwitchBranch bsp bep p body" bsp bep p body c c'] by simp
  qed
next
  case (StmtAssignVariable sp ep v e)
  then show ?case by (rule wl_AssignVariable)
next
  case (StmtAssignTuple sp ep vs e)
  then show ?case by (rule wl_AssignTuple)
next
  case (StmtProcedureCall sp ep p args)
  then show ?case by (rule wl_ProcedureCall)
next
  case (StmtOther sp ep tag)
  then show ?case by simp
next
  case (SwitchBranch bsp' bep' p' body')
  then show ?case by simp
qed

lemmas compileStatement_wellLabelled = compileStatement_wellLabelled_aux(1)

lemma compilePrograms_wellLabelled:
  "compilePrograms i18n defs c = Inr c' \<Longrightarrow> wellLabelled c c'"
proof (induction defs arbitrary: c)
  case Nil
  then show ?case by (simp add: wellLabelled_refl)
next
  case (Cons d defs)
  show ?case
  proof (cases d)
    case (DefProgram sp ep body)
    with Cons.prems obtain c1 c2 where
      1: "compileStatement i18n body c = Inr c1" and
      2: "c2 = produce sp ep IReturn c1" and
      3: "compilePrograms i18n defs c2 = Inr c'"
      by (auto simp: compileProgram_def thenE_eq_Inr)
    have "wellLabelled c1 c2"
      unfolding 2 by (rule labelFree_wellLabelled) (simp add: labelFree_iff)
    with compileStatement_wellLabelled [OF 1] Cons.IH [OF 3]
    show ?thesis by (blast intro: wellLabelled_trans)
  qed (use Cons in simp_all)
qed

lemma compileMain_wellLabelled:
  "compileMain i18n ast c = Inr c' \<Longrightarrow> wellLabelled c c'"
proof (cases "definitions ast = []")
  case True
  assume "compileMain i18n ast c = Inr c'"
  with True have "c' = produce (mainStartPos ast) (mainEndPos ast) IReturn c"
    by (simp add: compileMain_def)
  then show ?thesis
    by (intro labelFree_wellLabelled) (simp add: labelFree_iff)
next
  case False
  assume "compileMain i18n ast c = Inr c'"
  with False show ?thesis
    by (auto simp: compileMain_def thenE_eq_Inr compileCallables_nothing
        dest: compilePrograms_wellLabelled)
qed

text \<open>
  C2.  In the code a freshly constructed compiler returns for a tree, no label
  name is defined twice, and the target of every \<open>Jump\<close>, \<open>JumpIfFalse\<close>,
  \<open>JumpIfStructure\<close> and \<open>JumpIfTuple\<close> is the name of a label of that
  code.
\<close>

theorem C2_labels_well_formed:
  assumes "compile i18n ast (newCompiler prims symtab) = Inr cd"
  shows "distinct (labelsOf cd) \<and> set (targetsOf cd) \<subseteq> set (labelsOf cd)"
proof -
  from assms obtain c' where 1: "compileMain i18n ast (newCompiler prims symtab) = Inr c'"
    and 2: "cd = code c'"
    by (auto simp: compile_def thenE_eq_Inr)
  from compileMain_wellLabelled [OF 1] 2
  have "declares cd {0 ..< nextLabel c'} {0 ..< nextLabel c'}"
    by (auto simp: wellLabelled_iff newCompiler_def)
  then show ?thesis by (auto simp: declares_def)
qed

theorem C2_labels_well_formed_witness:
  "compile id
     (Main [DefProgram 1 2 (StmtIf 3 4 (ExprVariable 5 6 ''b'')
        (StmtBlock 7 8 []) (Some (StmtBlock 9 (10::nat) [])))] 0 11)
     (newCompiler samplePrimitives sampleSymbolTable) =
   Inr [Instruction (IPushVariable ''b'') 5 6,
        Instruction (ITypeCheck (TypeStructure ''TYPE:Bool'' [])) 5 6,
        Instruction (IJumpIfFalse ''_l0'') 3 4,
        Instruction (IJump ''_l1'') 3 4,
        Instruction (ILabel ''_l0'') 3 4,
        Instruction (ILabel ''_l1'') 3 4,
        Instruction IReturn 1 2] \<and>
   distinct [''_l0'', ''_l1''] \<and> set [''_l0'', ''_l1''] \<subseteq> set [''_l0'', ''_l1'']"
proof -
  have e: "compile id
     (Main [DefProgram 1 2 (StmtIf 3 4 (ExprVariable 5 6 ''b'')
        (StmtBlock 7 8 []) (Some (StmtBlock 9 (10::nat) [])))] 0 11)
     (newCompiler samplePrimitives sampleSymbolTable) =
   Inr [Instruction (IPushVariable ''b'') 5 6,
        Instruction (ITypeCheck (TypeStructure ''TYPE:Bool'' [])) 5 6,
        Instruction (IJumpIfFalse ''_l0'') 3 4,
        Instruction (IJump ''_l1'') 3 4,
        Instruction (ILabel ''_l0'') 3 4,
        Instruction (ILabel ''_l1'') 3 4,
        Instruction IReturn 1 2]"
    by (simp add: compile_def compileMain_def compileProgram_def newCompiler_def
        freshLabel_def produce_def toString_digits)
  from C2_labels_well_formed [OF e] e show ?thesis by simp
qed

end
